theory Spec2Isabelle
  imports Complex_Main "HOL-Library.Sublist"
begin

section \<open>Strings of the JavaScript runtime\<close>

text \<open>
  Strings are lists of 8-bit code units. \<open>is_space\<close> is the white space and line
  terminator set of \<open>String.prototype.trim\<close> and of the regular expression class
  \<open>\s\<close>, restricted to code units below 256: TAB, LF, VT, FF, CR, SPACE and NBSP.
\<close>

definition is_space :: "char \<Rightarrow> bool" where
  "is_space c = (c = CHR 0x09 \<or> c = CHR 0x0A \<or> c = CHR 0x0B \<or> c = CHR 0x0C \<or>
                 c = CHR 0x0D \<or> c = CHR 0x20 \<or> c = CHR 0xA0)"

definition trim :: "string \<Rightarrow> string" where
  "trim s = rev (dropWhile is_space (rev (dropWhile is_space s)))"

text \<open>\<open>s.split('\n')\<close>: the pieces between line feeds; never the empty list.\<close>

fun split_nl :: "string \<Rightarrow> string list" where
  "split_nl [] = [[]]"
| "split_nl (c # cs) =
     (if c = CHR 0x0A then [] # split_nl cs
      else (case split_nl cs of [] \<Rightarrow> [[c]] | l # ls \<Rightarrow> (c # l) # ls))"

text \<open>\<open>s.split('\n').filter(Boolean)\<close>: the non-empty pieces.\<close>

definition nonempty_lines :: "string \<Rightarrow> string list" where
  "nonempty_lines s = filter (\<lambda>l. l \<noteq> []) (split_nl s)"

text \<open>
  \<open>toLowerCase\<close> on the letters A to Z. Code units outside ASCII are left alone; they
  never become ASCII letters, so a search for an ASCII pattern is unaffected.
\<close>

definition to_lower :: "char \<Rightarrow> char" where
  "to_lower c =
     (case map_of (zip ''ABCDEFGHIJKLMNOPQRSTUVWXYZ'' ''abcdefghijklmnopqrstuvwxyz'') c of
        Some l \<Rightarrow> l
      | None \<Rightarrow> c)"

definition toLowerCase :: "string \<Rightarrow> string" where
  "toLowerCase s = map to_lower s"

text \<open>\<open>s.includes(pat)\<close>: \<open>pat\<close> occurs in \<open>s\<close> as a contiguous piece.\<close>

fun str_includes :: "string \<Rightarrow> string \<Rightarrow> bool" where
  "str_includes [] pat = (pat = [])"
| "str_includes (c # cs) pat = (prefix pat (c # cs) \<or> str_includes cs pat)"

text \<open>
  \<open>parseInt(s)\<close> without a radix: leading white space is skipped, then an optional sign,
  then an optional \<open>0x\<close> or \<open>0X\<close> (radix 16, else radix 10), then the longest run of
  digits; \<open>None\<close> is NaN. The value is the exact integer (a JavaScript number is exact
  below \<open>2^53\<close>).
\<close>

definition digit_val :: "nat \<Rightarrow> char \<Rightarrow> nat option" where
  "digit_val radix c =
     (case map_of
        [(CHR ''0'', 0), (CHR ''1'', 1), (CHR ''2'', 2), (CHR ''3'', 3), (CHR ''4'', 4),
         (CHR ''5'', 5), (CHR ''6'', 6), (CHR ''7'', 7), (CHR ''8'', 8), (CHR ''9'', 9),
         (CHR ''a'', 10), (CHR ''b'', 11), (CHR ''c'', 12), (CHR ''d'', 13),
         (CHR ''e'', 14), (CHR ''f'', 15)] (to_lower c) of
        Some d \<Rightarrow> if d < radix then Some d else None
      | None \<Rightarrow> None)"

fun leading_digits :: "nat \<Rightarrow> string \<Rightarrow> nat list" where
  "leading_digits radix [] = []"
| "leading_digits radix (c # cs) =
     (case digit_val radix c of
        None \<Rightarrow> []
      | Some d \<Rightarrow> d # leading_digits radix cs)"

definition parseInt :: "string \<Rightarrow> int option" where
  "parseInt str =
     (let s = dropWhile is_space str;
          neg = (take 1 s = ''-'');
          s1 = (if take 1 s = ''-'' \<or> take 1 s = ''+'' then drop 1 s else s);
          hex = (take 2 s1 = ''0x'' \<or> take 2 s1 = ''0X'');
          radix = (if hex then 16 else 10);
          z = leading_digits radix (if hex then drop 2 s1 else s1)
      in if z = [] then None
         else Some ((if neg then - 1 else 1) * int (foldl (\<lambda>a d. a * radix + d) 0 z)))"

section \<open>Running a command: execPromise\<close>

text \<open>
  The callback of \<open>child_process.exec\<close> receives either an error (with the captured
  stderr) or the captured stdout. \<open>execPromise\<close> rejects with
  \<open>new Error(stderr || error.message)\<close> or resolves with \<open>stdout.trim()\<close>.
  A rejected promise is \<open>Inl\<close> of the error message.
\<close>

datatype exec_outcome =
    ExecFailed string string
  | ExecSucceeded string

fun execPromise :: "exec_outcome \<Rightarrow> string + string" where
  "execPromise (ExecFailed stderr msg) = Inl (if stderr \<noteq> [] then stderr else msg)"
| "execPromise (ExecSucceeded stdout) = Inr (trim stdout)"

section \<open>Port probing\<close>

definition REQUIRED_PORTS :: "int list" where
  "REQUIRED_PORTS = [3000, 5433, 8000]"

text \<open>
  What the port functions observe of the operating system during one call: whether a
  server can listen on a port (\<open>listen_ok\<close>), the outcome of
  \<open>lsof -i :port -t -sTCP:LISTEN\<close> and of \<open>ps -p pid -o comm=\<close>, whether
  \<open>process.kill(pid, 'SIGTERM')\<close> throws (and with which message), and whether a server
  can listen on a port after the wait that follows the kills (\<open>listen_ok_after\<close>).
\<close>

record port_world =
  listen_ok :: "int \<Rightarrow> bool"
  lsof_cmd :: "int \<Rightarrow> exec_outcome"
  comm_cmd :: "int \<Rightarrow> exec_outcome"
  kill_error :: "int \<Rightarrow> string option"
  listen_ok_after :: "int \<Rightarrow> bool"

definition isPortAvailable :: "port_world \<Rightarrow> int \<Rightarrow> bool" where
  "isPortAvailable w p = listen_ok w p"

record port_availability =
  available :: bool

record port_check = port_availability +
  blockedPorts :: "int list"

definition checkRequiredPorts :: "port_world \<Rightarrow> port_check" where
  "checkRequiredPorts w =
     (let blocked = filter (\<lambda>p. \<not> isPortAvailable w p) REQUIRED_PORTS
      in \<lparr>available = (length blocked = 0), blockedPorts = blocked\<rparr>)"

record PortConflict =
  port :: int
  pid :: int
  processName :: string

record port_conflicts = port_availability +
  conflicts :: "PortConflict list"

text \<open>
  The lines handed to \<open>emitLog\<close> by the port functions:
  \<open>Could not identify process on port P\<close>, \<open>Killed process PID on port P\<close> and
  \<open>Could not kill process PID on port P: message\<close>.
\<close>

datatype log_line =
    CouldNotIdentify int
  | Killed int int
  | CouldNotKill int int string

text \<open>
  \<open>pidOutput.split('\n').map(p => parseInt(p.trim())).filter(p => !isNaN(p) && p > 0)\<close>
\<close>

definition parse_pids :: "string \<Rightarrow> int list" where
  "parse_pids pidOutput =
     List.map_filter
       (\<lambda>p. case parseInt (trim p) of
               None \<Rightarrow> None
             | Some n \<Rightarrow> if n > 0 then Some n else None)
       (split_nl pidOutput)"

text \<open>The body of the loop of \<open>getPortConflicts\<close> for one blocked port.\<close>

definition port_conflict_entries :: "port_world \<Rightarrow> int \<Rightarrow> PortConflict list \<times> log_line list" where
  "port_conflict_entries w p =
     (case execPromise (lsof_cmd w p) of
        Inl _ \<Rightarrow> ([], [CouldNotIdentify p])
      | Inr pidOutput \<Rightarrow>
          (map (\<lambda>q. case execPromise (comm_cmd w q) of
                      Inr name \<Rightarrow> \<lparr>port = p, pid = q, processName = trim name\<rparr>
                    | Inl _ \<Rightarrow> \<lparr>port = p, pid = q, processName = ''unknown''\<rparr>)
               (parse_pids pidOutput),
           []))"

definition getPortConflicts :: "port_world \<Rightarrow> port_conflicts \<times> log_line list" where
  "getPortConflicts w =
     (let portCheck = checkRequiredPorts w
      in if available portCheck then (\<lparr>available = True, conflicts = []\<rparr>, [])
         else
           (let found = map (port_conflict_entries w) (blockedPorts portCheck)
            in (\<lparr>available = False, conflicts = concat (map fst found)\<rparr>,
                concat (map snd found))))"

datatype signal = SIGTERM | SIGKILL

text \<open>What \<open>killPortProcesses\<close> does to the system, in order.\<close>

datatype sys_event =
    ExecLsof int
  | ProcessKill int signal
  | EmitLog log_line
  | SetTimeout nat
  | ProbePort int

datatype port_error = StillInUse int

definition kill_pid :: "port_world \<Rightarrow> int \<Rightarrow> int \<Rightarrow> sys_event list" where
  "kill_pid w p q =
     [ProcessKill q SIGTERM,
      EmitLog (case kill_error w q of None \<Rightarrow> Killed q p | Some m \<Rightarrow> CouldNotKill q p m)]"

definition kill_port :: "port_world \<Rightarrow> int \<Rightarrow> sys_event list" where
  "kill_port w p =
     ExecLsof p #
     (case execPromise (lsof_cmd w p) of
        Inl _ \<Rightarrow> []
      | Inr pidOutput \<Rightarrow> concat (map (kill_pid w p) (parse_pids pidOutput)))"

text \<open>
  The second loop of \<open>killPortProcesses\<close>: the first port that is still bound throws
  \<open>Port P is still in use after killing processes. You may need to free it manually.\<close>
\<close>

fun verify_freed :: "port_world \<Rightarrow> int list \<Rightarrow> (port_error + unit) \<times> sys_event list" where
  "verify_freed w [] = (Inr (), [])"
| "verify_freed w (p # ps) =
     (if \<not> listen_ok_after w p then (Inl (StillInUse p), [ProbePort p])
      else (case verify_freed w ps of (r, evs) \<Rightarrow> (r, ProbePort p # evs)))"

definition killPortProcesses :: "port_world \<Rightarrow> int list \<Rightarrow> (port_error + unit) \<times> sys_event list" where
  "killPortProcesses w ports =
     (case verify_freed w ports of
        (r, probes) \<Rightarrow> (r, concat (map (kill_port w) ports) @ [SetTimeout 1500] @ probes))"

section \<open>Credentials\<close>

record ContainerConfig =
  adminEmail :: "string option"
  adminPassword :: "string option"

record credentials =
  cred_email :: "string option"
  cred_password :: "string option"

text \<open>
  A regular expression made of character classes, each taken once or (\<open>True\<close>) one or
  more times, anchored at both ends; the matcher backtracks as the engine does.
\<close>

fun rx_match :: "((char \<Rightarrow> bool) \<times> bool) list \<Rightarrow> string \<Rightarrow> bool" where
  "rx_match [] s = (s = [])"
| "rx_match ((cls, rep) # rest) [] = False"
| "rx_match ((cls, rep) # rest) (c # cs) =
     (cls c \<and> (rx_match rest cs \<or> (rep \<and> rx_match ((cls, rep) # rest) cs)))"

definition not_space_or_at :: "char \<Rightarrow> bool" where
  "not_space_or_at c = (\<not> is_space c \<and> c \<noteq> CHR ''@'')"

text \<open>\<open>/^[^\s@]+@[^\s@]+\.[^\s@]+$/\<close>\<close>

definition email_regex :: "((char \<Rightarrow> bool) \<times> bool) list" where
  "email_regex =
     [(not_space_or_at, True), (\<lambda>c. c = CHR ''@'', False), (not_space_or_at, True),
      (\<lambda>c. c = CHR ''.'', False), (not_space_or_at, True)]"

text \<open>\<open>config?.field\<close>, and the truth value of an optional string.\<close>

definition opt_field :: "('c \<Rightarrow> string option) \<Rightarrow> 'c option \<Rightarrow> string option" where
  "opt_field f config = (case config of None \<Rightarrow> None | Some c \<Rightarrow> f c)"

definition truthy :: "string option \<Rightarrow> bool" where
  "truthy v = (case v of None \<Rightarrow> False | Some s \<Rightarrow> s \<noteq> [])"

definition validateCredentials :: "ContainerConfig option \<Rightarrow> string + credentials" where
  "validateCredentials config =
     (case (case opt_field adminEmail config of
              None \<Rightarrow> Inr None
            | Some raw \<Rightarrow>
                if raw = [] then Inr None
                else (let email = trim raw
                      in if length email > 254 then Inl ''Email address too long''
                         else if \<not> rx_match email_regex email then Inl ''Invalid email format''
                         else Inr (Some email))) of
        Inl err \<Rightarrow> Inl err
      | Inr email_field \<Rightarrow>
          (case opt_field adminPassword config of
             None \<Rightarrow> Inr \<lparr>cred_email = email_field, cred_password = None\<rparr>
           | Some password \<Rightarrow>
               if password = [] then Inr \<lparr>cred_email = email_field, cred_password = None\<rparr>
               else if length password > 128 then Inl ''Password too long''
               else if length password < 8 then Inl ''Password must be at least 8 characters''
               else Inr \<lparr>cred_email = email_field, cred_password = Some password\<rparr>))"

section \<open>JSON values as the status query reads them\<close>

text \<open>
  \<open>JSON.parse\<close> belongs to the runtime, not to this program: the development takes it
  as a parameter \<open>parse\<close>, \<open>None\<close> standing for a thrown SyntaxError. An object is
  the list of its own properties.
\<close>

datatype json =
    JNull
  | JBool bool
  | JNum rat
  | JStr string
  | JArr "json list"
  | JObj "(string \<times> json) list"

text \<open>Property access \<open>c.key\<close>; \<open>None\<close> is \<open>undefined\<close>.\<close>

fun js_prop :: "json \<Rightarrow> string \<Rightarrow> json option" where
  "js_prop (JObj kvs) k = map_of kvs k"
| "js_prop _ k = None"

text \<open>\<open>!v\<close>: undefined, null, false, 0 and the empty string are falsy.\<close>

fun js_falsy :: "json option \<Rightarrow> bool" where
  "js_falsy None = True"
| "js_falsy (Some JNull) = True"
| "js_falsy (Some (JBool b)) = (\<not> b)"
| "js_falsy (Some (JNum n)) = (n = 0)"
| "js_falsy (Some (JStr s)) = (s = [])"
| "js_falsy (Some (JArr xs)) = False"
| "js_falsy (Some (JObj kvs)) = False"

section \<open>The host and the status query\<close>

text \<open>
  The host of the main process: the docker binary found at load time, the process
  environment, and whether the compose file exists (and its path).
\<close>

record host =
  docker_bin :: string
  process_env :: "string \<rightharpoonup> string"
  compose_exists :: bool
  compose_file :: string

text \<open>\<open>/usr/local/bin:/opt/homebrew/bin:/usr/bin:/bin:${process.env.PATH || ''}\<close>\<close>

definition EXTENDED_PATH :: "'a host_scheme \<Rightarrow> string" where
  "EXTENDED_PATH h =
     ''/usr/local/bin:/opt/homebrew/bin:/usr/bin:/bin:'' @
     (case process_env h ''PATH'' of None \<Rightarrow> [] | Some p \<Rightarrow> p)"

definition getComposePath :: "'a host_scheme \<Rightarrow> string + string" where
  "getComposePath h =
     (if \<not> compose_exists h then Inl (''Docker Compose file not found: '' @ compose_file h)
      else Inr (compose_file h))"

record DockerStatus =
  installed :: bool
  running :: bool
  containersUp :: bool
  healthy :: bool
  error :: "string option"

text \<open>
  What one status query observes beyond the host: the outcome of \<open>docker --version\<close>,
  of \<open>docker info\<close> and of \<open>docker compose -f path ps --format json\<close>.
\<close>

record docker_world = host +
  version_cmd :: exec_outcome
  info_cmd :: exec_outcome
  ps_cmd :: exec_outcome

definition isDockerInstalled :: "docker_world \<Rightarrow> bool" where
  "isDockerInstalled w = (case execPromise (version_cmd w) of Inr _ \<Rightarrow> True | Inl _ \<Rightarrow> False)"

definition isDockerRunning :: "docker_world \<Rightarrow> bool" where
  "isDockerRunning w = (case execPromise (info_cmd w) of Inr _ \<Rightarrow> True | Inl _ \<Rightarrow> False)"

text \<open>
  The parsed records of a list of lines: a line that fails to parse becomes \<open>null\<close>, and
  \<open>filter(Boolean)\<close> drops every falsy value.
\<close>

definition parse_lines :: "(string \<Rightarrow> json option) \<Rightarrow> string list \<Rightarrow> json list" where
  "parse_lines parse ls =
     List.map_filter
       (\<lambda>line. case parse line of
                  None \<Rightarrow> None
                | Some c \<Rightarrow> if js_falsy (Some c) then None else Some c)
       ls"

definition state_running :: "json \<Rightarrow> bool" where
  "state_running c = (js_prop c ''State'' = Some (JStr ''running''))"

definition health_ok :: "json \<Rightarrow> bool" where
  "health_ok c =
     (js_falsy (js_prop c ''Health'') \<or> js_prop c ''Health'' = Some (JStr ''healthy''))"

definition getDockerStatus :: "(string \<Rightarrow> json option) \<Rightarrow> docker_world \<Rightarrow> DockerStatus" where
  "getDockerStatus parse w =
     (if \<not> isDockerInstalled w then
        \<lparr>installed = False, running = False, containersUp = False, healthy = False,
         error = None\<rparr>
      else if \<not> isDockerRunning w then
        \<lparr>installed = True, running = False, containersUp = False, healthy = False,
         error = None\<rparr>
      else
        (case getComposePath w of
           Inl msg \<Rightarrow>
             \<lparr>installed = True, running = True, containersUp = False, healthy = False,
              error = Some msg\<rparr>
         | Inr path \<Rightarrow>
             (case execPromise (ps_cmd w) of
                Inl msg \<Rightarrow>
                  \<lparr>installed = True, running = True, containersUp = False, healthy = False,
                   error = Some msg\<rparr>
              | Inr psOutput \<Rightarrow>
                  if psOutput = [] then
                    \<lparr>installed = True, running = True, containersUp = False,
                     healthy = False, error = None\<rparr>
                  else
                    (let containers = parse_lines parse (nonempty_lines psOutput);
                         allUp = (length containers \<ge> 3 \<and> list_all state_running containers);
                         allHealthy = list_all health_ok containers
                     in \<lparr>installed = True, running = True, containersUp = allUp,
                         healthy = (allUp \<and> allHealthy), error = None\<rparr>))))"

section \<open>Subprocesses of the compose commands\<close>

text \<open>
  What a spawned subprocess and the timer do, in the order the event loop delivers it:
  data on stdout or stderr, the \<open>close\<close> event with its exit code (\<open>None\<close> is
  \<open>null\<close>: ended by a signal), the \<open>error\<close> event, and the timeout callback.
\<close>

datatype proc_event =
    StdoutData string
  | StderrData string
  | Close "int option"
  | ProcError string
  | TimerFired

text \<open>
  A rejection: an \<open>Error\<close> with a fixed or received message, or the message that
  carries the exit code (\<open>Docker compose up failed with code N.\<close>,
  \<open>Docker compose down failed with code N\<close>).
\<close>

datatype rejection =
    Error string
  | FailedWithCode "int option"

text \<open>
  The promise and what the handlers share: the promise settles once (\<open>None\<close> is
  pending), the timer is armed until it fires or is cleared, stderr accumulates, the
  signals sent with \<open>kill\<close>, membership in \<open>activeProcesses\<close>, and the lines given to
  \<open>emitLog\<close>.
\<close>

record proc_state =
  settled :: "(rejection + unit) option"
  timer_armed :: bool
  stderrOutput :: string
  sent_signals :: "signal list"
  tracked :: bool
  emitted :: "string list"

definition spawned_state :: proc_state where
  "spawned_state =
     \<lparr>settled = None, timer_armed = True, stderrOutput = [], sent_signals = [],
      tracked = True, emitted = []\<rparr>"

text \<open>\<open>resolve\<close> and \<open>reject\<close>: only the first call settles the promise.\<close>

definition settle :: "rejection + unit \<Rightarrow> proc_state \<Rightarrow> proc_state" where
  "settle r s = (case settled s of None \<Rightarrow> s\<lparr>settled := Some r\<rparr> | Some _ \<Rightarrow> s)"

text \<open>
  \<open>data.toString().split('\n').filter(Boolean).forEach(emitLog)\<close>, where \<open>emitLog\<close>
  passes on the trimmed line unless it is empty.
\<close>

definition emit_lines :: "string \<Rightarrow> proc_state \<Rightarrow> proc_state" where
  "emit_lines text s =
     s\<lparr>emitted := emitted s @ filter (\<lambda>l. l \<noteq> []) (map trim (nonempty_lines text))\<rparr>"

definition clear_and_untrack :: "proc_state \<Rightarrow> proc_state" where
  "clear_and_untrack s = s\<lparr>timer_armed := False, tracked := False\<rparr>"

definition up_failure :: "string \<Rightarrow> int option \<Rightarrow> rejection" where
  "up_failure stderr code =
     (if str_includes stderr ''port is already allocated'' then
        Error ''Port conflict detected. Another process is using required ports.''
      else if str_includes stderr ''No such image'' then
        Error ''Required Docker images not found. Please pull images first.''
      else if str_includes stderr ''Cannot connect'' then
        Error ''Cannot connect to Docker daemon. Is Docker Desktop running?''
      else FailedWithCode code)"

fun up_event :: "proc_state \<Rightarrow> proc_event \<Rightarrow> proc_state" where
  "up_event s (StdoutData d) = emit_lines d s"
| "up_event s (StderrData d) = emit_lines d (s\<lparr>stderrOutput := stderrOutput s @ d\<rparr>)"
| "up_event s (Close code) =
     (if code = Some 0 then settle (Inr ()) (clear_and_untrack s)
      else settle (Inl (up_failure (stderrOutput s) code)) (clear_and_untrack s))"
| "up_event s (ProcError msg) = settle (Inl (Error msg)) (clear_and_untrack s)"
| "up_event s TimerFired =
     (if timer_armed s then
        settle (Inl (Error ''Container startup timed out. Docker may be unresponsive.''))
          (s\<lparr>timer_armed := False, sent_signals := sent_signals s @ [SIGTERM]\<rparr>)
      else s)"

fun down_event :: "proc_state \<Rightarrow> proc_event \<Rightarrow> proc_state" where
  "down_event s (StdoutData d) = emit_lines d s"
| "down_event s (StderrData d) = emit_lines d s"
| "down_event s (Close code) =
     (if code = Some 0 \<or> code = None then settle (Inr ()) (clear_and_untrack s)
      else settle (Inl (FailedWithCode code)) (clear_and_untrack s))"
| "down_event s (ProcError msg) = settle (Inl (Error msg)) (clear_and_untrack s)"
| "down_event s TimerFired =
     (if timer_armed s then
        settle
          (Inl (Error
            ''Container shutdown timed out. Try force-stopping Docker containers manually.''))
          (s\<lparr>timer_armed := False, sent_signals := sent_signals s @ [SIGTERM]\<rparr>)
      else s)"

record spawn_request =
  command :: string
  args :: "string list"
  spawn_env :: "string \<rightharpoonup> string"

text \<open>
  A call of \<open>startContainers\<close> or \<open>stopContainers\<close>: the subprocess it spawned, if
  any, and the state its promise ends in.
\<close>

record compose_call =
  spawned :: "spawn_request option"
  final :: proc_state

definition rejected_early :: "string \<Rightarrow> compose_call" where
  "rejected_early msg =
     \<lparr>spawned = None,
      final = \<lparr>settled = Some (Inl (Error msg)), timer_armed = False, stderrOutput = [],
               sent_signals = [], tracked = False, emitted = []\<rparr>\<rparr>"

definition startContainers ::
  "'a host_scheme \<Rightarrow> ContainerConfig option \<Rightarrow> proc_event list \<Rightarrow> compose_call" where
  "startContainers h config events =
     (case getComposePath h of
        Inl msg \<Rightarrow> rejected_early msg
      | Inr composePath \<Rightarrow>
          (case validateCredentials config of
             Inl msg \<Rightarrow> rejected_early msg
           | Inr creds \<Rightarrow>
               (let env0 = (process_env h)(''PATH'' \<mapsto> EXTENDED_PATH h);
                    env1 = (if truthy (cred_email creds)
                            then env0(''ADMIN_EMAIL'' := cred_email creds) else env0);
                    env2 = (if truthy (cred_password creds)
                            then env1(''ADMIN_PASSWORD'' := cred_password creds) else env1)
                in \<lparr>spawned = Some \<lparr>command = docker_bin h,
                                     args = [''compose'', ''-f'', composePath, ''up'', ''-d''],
                                     spawn_env = env2\<rparr>,
                    final = foldl up_event spawned_state events\<rparr>)))"

definition stopContainers :: "'a host_scheme \<Rightarrow> proc_event list \<Rightarrow> compose_call" where
  "stopContainers h events =
     (case getComposePath h of
        Inl msg \<Rightarrow> rejected_early msg
      | Inr composePath \<Rightarrow>
          \<lparr>spawned = Some \<lparr>command = docker_bin h,
                            args = [''compose'', ''-f'', composePath, ''down''],
                            spawn_env = (process_env h)(''PATH'' \<mapsto> EXTENDED_PATH h)\<rparr>,
           final = foldl down_event spawned_state events\<rparr>)"

text \<open>
  The first event that settles a pending promise whose timer is armed: \<open>close\<close>,
  \<open>error\<close> or the timeout.
\<close>

fun settling :: "proc_event \<Rightarrow> bool" where
  "settling (StdoutData d) = False"
| "settling (StderrData d) = False"
| "settling (Close code) = True"
| "settling (ProcError msg) = True"
| "settling TimerFired = True"

definition first_settling :: "proc_event list \<Rightarrow> proc_event option" where
  "first_settling events = find settling events"

section \<open>waitForHealthy\<close>

definition HEALTH_CHECK_TIMEOUT :: int where
  "HEALTH_CHECK_TIMEOUT = 120000"

definition HEALTH_CHECK_INTERVAL :: int where
  "HEALTH_CHECK_INTERVAL = 3000"

text \<open>
  The timeout is a JavaScript number received over IPC: a finite value (whole
  milliseconds), an infinity or NaN. \<open>js_less e t\<close> is \<open>e < t\<close> for an integer \<open>e\<close>.
\<close>

datatype js_number = Num int | PosInfinity | NegInfinity | NaN

fun js_less :: "int \<Rightarrow> js_number \<Rightarrow> bool" where
  "js_less e (Num t) = (e < t)"
| "js_less e PosInfinity = True"
| "js_less e NegInfinity = False"
| "js_less e NaN = False"

definition phase_label :: "DockerStatus \<Rightarrow> string" where
  "phase_label status =
     (if containersUp status then ''Waiting for services to become healthy...''
      else if running status then ''Starting containers...''
      else ''Waiting for Docker...'')"

text \<open>
  The loop of \<open>waitForHealthy\<close>. \<open>clock 0\<close> is the reading of \<open>Date.now()\<close> that
  becomes \<open>startTime\<close>, \<open>clock (Suc i)\<close> the reading of the test before round \<open>i\<close>, and
  \<open>worlds i\<close> what the status query of round \<open>i\<close> observes. The sleep of
  \<open>HEALTH_CHECK_INTERVAL\<close> at the end of a round shows in the next reading of the
  clock only. The labels passed to \<open>onStatus\<close> are collected. The loop need not end:
  not returning is \<open>None\<close>.
\<close>

partial_function (option) wait_loop ::
  "(string \<Rightarrow> json option) \<Rightarrow> (nat \<Rightarrow> int) \<Rightarrow> (nat \<Rightarrow> docker_world) \<Rightarrow> int \<Rightarrow> js_number \<Rightarrow>
   nat \<Rightarrow> string list \<Rightarrow> (bool \<times> string list) option" where
  "wait_loop parse clock worlds startTime timeoutMs i labels =
     (if js_less (clock (Suc i) - startTime) timeoutMs then
        (let status = getDockerStatus parse (worlds i)
         in if healthy status then Some (True, labels @ [''All services healthy''])
            else wait_loop parse clock worlds startTime timeoutMs (Suc i)
                   (labels @ [phase_label status]))
      else Some (False, labels))"

text \<open>The default parameter \<open>timeoutMs = HEALTH_CHECK_TIMEOUT\<close>; \<open>None\<close> is \<open>undefined\<close>.\<close>

definition timeout_or_default :: "js_number option \<Rightarrow> js_number" where
  "timeout_or_default timeoutMs =
     (case timeoutMs of None \<Rightarrow> Num HEALTH_CHECK_TIMEOUT | Some t \<Rightarrow> t)"

definition waitForHealthy ::
  "(string \<Rightarrow> json option) \<Rightarrow> (nat \<Rightarrow> int) \<Rightarrow> (nat \<Rightarrow> docker_world) \<Rightarrow> js_number option \<Rightarrow>
   (bool \<times> string list) option" where
  "waitForHealthy parse clock worlds timeoutMs =
     wait_loop parse clock worlds (clock 0) (timeout_or_default timeoutMs) 0 []"

section \<open>The single-flight flag of the main process\<close>

datatype docker_op =
    OpStart "ContainerConfig option"
  | OpStop
  | OpPull
  | OpInstall

text \<open>
  The module state of the main process that the IPC handlers share: the flag
  \<open>dockerOperationInProgress\<close>, and the docker functions that were called and have not
  settled yet.
\<close>

record main_state =
  dockerOperationInProgress :: bool
  awaiting :: "docker_op list"

text \<open>
  Every guarded handler has the same shape. \<open>guarded_enter\<close> runs it up to its
  \<open>await\<close>: it throws at once (\<open>Some\<close> of the message) or sets the flag and calls the
  docker function. \<open>guarded_leave\<close> is the rest, run when that call has settled with
  \<open>r\<close>, resolved or rejected: the \<open>finally\<close> block, after which the handler settles
  with \<open>r\<close> too.
\<close>

definition guarded_enter :: "docker_op \<Rightarrow> main_state \<Rightarrow> string option \<times> main_state" where
  "guarded_enter op s =
     (if dockerOperationInProgress s then (Some ''Docker operation already in progress'', s)
      else (None, s\<lparr>dockerOperationInProgress := True, awaiting := awaiting s @ [op]\<rparr>))"

definition guarded_leave ::
  "docker_op \<Rightarrow> rejection + unit \<Rightarrow> main_state \<Rightarrow> (rejection + unit) \<times> main_state" where
  "guarded_leave op r s =
     (r, s\<lparr>dockerOperationInProgress := False, awaiting := remove1 op (awaiting s)\<rparr>)"

definition docker_start :: "ContainerConfig option \<Rightarrow> main_state \<Rightarrow> string option \<times> main_state" where
  "docker_start config s = guarded_enter (OpStart config) s"

definition docker_start_finally ::
  "ContainerConfig option \<Rightarrow> rejection + unit \<Rightarrow> main_state \<Rightarrow> (rejection + unit) \<times> main_state" where
  "docker_start_finally config r s = guarded_leave (OpStart config) r s"

definition docker_stop :: "main_state \<Rightarrow> string option \<times> main_state" where
  "docker_stop s = guarded_enter OpStop s"

definition docker_stop_finally ::
  "rejection + unit \<Rightarrow> main_state \<Rightarrow> (rejection + unit) \<times> main_state" where
  "docker_stop_finally r s = guarded_leave OpStop r s"

text \<open>
  What reaches the main process, one event at a time: an invocation of \<open>docker:start\<close>
  or of \<open>docker:stop\<close>, or the settling (with \<open>r\<close>) of the docker function that a
  handler awaits, which resumes that handler.
\<close>

datatype ipc_event =
    InvokeStart "ContainerConfig option"
  | InvokeStop
  | Settles "rejection + unit"

fun ipc_step :: "main_state \<Rightarrow> ipc_event \<Rightarrow> main_state" where
  "ipc_step s (InvokeStart config) = snd (docker_start config s)"
| "ipc_step s InvokeStop = snd (docker_stop s)"
| "ipc_step s (Settles r) =
     (case awaiting s of
        [] \<Rightarrow> s
      | op # _ \<Rightarrow> snd (guarded_leave op r s))"

definition idle_state :: main_state where
  "idle_state = \<lparr>dockerOperationInProgress = False, awaiting = []\<rparr>"

section \<open>The container start loop of the setup page\<close>

definition isPortError :: "string \<Rightarrow> bool" where
  "isPortError msg =
     (str_includes (toLowerCase msg) ''port'' \<or>
      str_includes (toLowerCase msg) ''address already in use'')"

text \<open>\<open>[...new Set(xs)]\<close>: the first occurrences, in order.\<close>

fun dedupe :: "'a list \<Rightarrow> 'a list" where
  "dedupe [] = []"
| "dedupe (x # xs) = x # filter (\<lambda>y. y \<noteq> x) (dedupe xs)"

datatype modal_choice = Confirm | Cancel

text \<open>
  What one round of the loop receives: the result of \<open>api.docker.checkPorts()\<close>, the
  button pressed in the port modal, the result of \<open>api.docker.killPortProcesses\<close> and
  the result of \<open>api.docker.start\<close>; \<open>Inl\<close> is a rejection with its message.
\<close>

record attempt_io =
  checkPorts_result :: "string + port_conflicts"
  modal_result :: modal_choice
  killPortProcesses_result :: "string + unit"
  start_result :: "string + unit"

datatype api_call =
    ApiCheckPorts
  | PortModal "PortConflict list"
  | ApiKillPortProcesses "int list"
  | ApiStart ContainerConfig

definition resolvePortConflicts :: "attempt_io \<Rightarrow> (string + bool) \<times> api_call list" where
  "resolvePortConflicts io =
     (case checkPorts_result io of
        Inl msg \<Rightarrow> (Inl msg, [ApiCheckPorts])
      | Inr portResult \<Rightarrow>
          if available portResult then (Inr True, [ApiCheckPorts])
          else
            (let conflictPorts = dedupe (map port (conflicts portResult))
             in case modal_result io of
                  Cancel \<Rightarrow> (Inr False, [ApiCheckPorts, PortModal (conflicts portResult)])
                | Confirm \<Rightarrow>
                    (case killPortProcesses_result io of
                       Inl msg \<Rightarrow>
                         (Inl msg,
                          [ApiCheckPorts, PortModal (conflicts portResult),
                           ApiKillPortProcesses conflictPorts])
                     | Inr _ \<Rightarrow>
                         (Inr True,
                          [ApiCheckPorts, PortModal (conflicts portResult),
                           ApiKillPortProcesses conflictPorts]))))"

text \<open>
  The state the containers step ends in: success, or the step detail with the title and
  message given to \<open>setError\<close>.
\<close>

datatype containers_step =
    StepSuccess
  | StepError string string string

datatype attempt_result =
    Retry
  | Finished containers_step

text \<open>The \<open>catch\<close> block of the loop body.\<close>

definition start_catch :: "nat \<Rightarrow> string \<Rightarrow> attempt_result" where
  "start_catch attempt msg =
     (let errorMsg = (if msg = [] then ''Could not start containers.'' else msg)
      in if isPortError errorMsg \<and> attempt < 2 then Retry
         else Finished (StepError ''Failed'' ''Start Failed'' errorMsg))"

text \<open>The body of the loop: the \<open>try\<close> block and its \<open>catch\<close>.\<close>

definition start_attempt ::
  "ContainerConfig \<Rightarrow> attempt_io \<Rightarrow> nat \<Rightarrow> attempt_result \<times> api_call list" where
  "start_attempt config io attempt =
     (case resolvePortConflicts io of
        (Inl msg, calls) \<Rightarrow> (start_catch attempt msg, calls)
      | (Inr portsOk, calls) \<Rightarrow>
          if \<not> portsOk then
            (Finished (StepError ''Port conflict'' ''Port Conflict''
                         ''Free the required ports manually and retry.''), calls)
          else
            (case start_result io of
               Inr _ \<Rightarrow> (Finished StepSuccess, calls @ [ApiStart config])
             | Inl msg \<Rightarrow> (start_catch attempt msg, calls @ [ApiStart config])))"

function start_attempts ::
  "ContainerConfig \<Rightarrow> (nat \<Rightarrow> attempt_io) \<Rightarrow> nat \<Rightarrow> api_call list \<Rightarrow>
   containers_step \<times> api_call list" where
  "start_attempts config ios attempt calls =
     (if attempt < 3 then
        (case start_attempt config (ios attempt) attempt of
           (Retry, cs) \<Rightarrow> start_attempts config ios (Suc attempt) (calls @ cs)
         | (Finished step, cs) \<Rightarrow> (step, calls @ cs))
      else
        (StepError ''Failed'' ''Start Failed''
           ''Could not start containers after multiple attempts.'', calls))"
  by pat_completeness auto
termination
  by (relation "measure (\<lambda>(config, ios, attempt, calls). 3 - attempt)") auto

declare start_attempts.simps [simp del]

definition is_start_call :: "api_call \<Rightarrow> bool" where
  "is_start_call c = (case c of ApiStart _ \<Rightarrow> True | _ \<Rightarrow> False)"

section \<open>What a result of the polling loop says\<close>

text \<open>
  A result \<open>b\<close> of the loop entered at round \<open>i\<close>: \<open>True\<close> says that some round
  \<open>k\<close> from \<open>i\<close> on saw a healthy status and every test up to it passed; \<open>False\<close> says
  that the test before some round \<open>k\<close> failed and every earlier round passed its test
  and saw an unhealthy status.
\<close>

definition sound_at ::
  "(string \<Rightarrow> json option) \<Rightarrow> (nat \<Rightarrow> int) \<Rightarrow> (nat \<Rightarrow> docker_world) \<Rightarrow> int \<Rightarrow> js_number \<Rightarrow>
   nat \<Rightarrow> bool \<Rightarrow> bool" where
  "sound_at parse clock worlds st t i b =
     (if b then (\<exists>k\<ge>i. healthy (getDockerStatus parse (worlds k)) \<and>
                   (\<forall>j. i \<le> j \<and> j \<le> k \<longrightarrow> js_less (clock (Suc j) - st) t))
      else (\<exists>k\<ge>i. \<not> js_less (clock (Suc k) - st) t \<and>
                   (\<forall>j. i \<le> j \<and> j < k \<longrightarrow> js_less (clock (Suc j) - st) t \<and>
                          \<not> healthy (getDockerStatus parse (worlds j)))))"

text \<open>The promise of \<open>stopContainers\<close> as its first settling event decides it.\<close>

definition down_verdict :: "proc_event \<Rightarrow> rejection + unit" where
  "down_verdict e =
     (case e of
        Close code \<Rightarrow> if code = Some 0 \<or> code = None then Inr () else Inl (FailedWithCode code)
      | ProcError msg \<Rightarrow> Inl (Error msg)
      | _ \<Rightarrow> Inl (Error
            ''Container shutdown timed out. Try force-stopping Docker containers manually.''))"

section \<open>Concrete inputs\<close>

text \<open>
  A table that agrees with \<open>JSON.parse\<close> on every line of the outputs below: three
  well-formed container records, and a SyntaxError for the other lines (none of which
  is JSON).
\<close>

definition rec_healthy :: string where
  "rec_healthy = ''{\"State\":\"running\",\"Health\":\"healthy\"}''"

definition rec_no_probe :: string where
  "rec_no_probe = ''{\"State\":\"running\",\"Health\":\"\"}''"

definition rec_starting :: string where
  "rec_starting = ''{\"State\":\"running\",\"Health\":\"starting\"}''"

definition sample_parse :: "string \<Rightarrow> json option" where
  "sample_parse line =
     (if line = rec_healthy then
        Some (JObj [(''State'', JStr ''running''), (''Health'', JStr ''healthy'')])
      else if line = rec_no_probe then
        Some (JObj [(''State'', JStr ''running''), (''Health'', JStr '''')])
      else if line = rec_starting then
        Some (JObj [(''State'', JStr ''running''), (''Health'', JStr ''starting'')])
      else None)"

definition sample_host :: host where
  "sample_host =
     \<lparr>docker_bin = ''/usr/local/bin/docker'',
      process_env = [''PATH'' \<mapsto> ''/usr/bin:/bin'', ''HOME'' \<mapsto> ''/Users/dev''],
      compose_exists = True,
      compose_file = ''resources/docker-compose.yml''\<rparr>"

text \<open>A host whose own environment already has \<open>ADMIN_EMAIL\<close>.\<close>

definition inherited_host :: host where
  "inherited_host =
     \<lparr>docker_bin = ''/usr/local/bin/docker'',
      process_env = [''PATH'' \<mapsto> ''/usr/bin:/bin'', ''ADMIN_EMAIL'' \<mapsto> ''root@example.com''],
      compose_exists = True,
      compose_file = ''resources/docker-compose.yml''\<rparr>"

definition world_with_ps :: "exec_outcome \<Rightarrow> docker_world" where
  "world_with_ps ps =
     \<lparr>docker_bin = ''/usr/local/bin/docker'',
      process_env = [''PATH'' \<mapsto> ''/usr/bin:/bin'', ''HOME'' \<mapsto> ''/Users/dev''],
      compose_exists = True,
      compose_file = ''resources/docker-compose.yml'',
      version_cmd = ExecSucceeded ''Docker version 27.0.3'',
      info_cmd = ExecSucceeded ''Server Version: 27.0.3'',
      ps_cmd = ps\<rparr>"

text \<open>Three running containers, one without a probe, and a warning line in between.\<close>

definition healthy_output :: string where
  "healthy_output =
     rec_healthy @ [CHR 0x0A] @ ''WARN: version is obsolete'' @ [CHR 0x0A] @
     rec_no_probe @ [CHR 0x0A] @ rec_healthy @ [CHR 0x0A]"

definition healthy_world :: docker_world where
  "healthy_world = world_with_ps (ExecSucceeded healthy_output)"

definition starting_output :: string where
  "starting_output =
     rec_healthy @ [CHR 0x0A] @ rec_starting @ [CHR 0x0A] @ rec_healthy @ [CHR 0x0A]"

definition starting_world :: docker_world where
  "starting_world = world_with_ps (ExecSucceeded starting_output)"

text \<open>No line of the output is JSON.\<close>

definition garbled_output :: string where
  "garbled_output = ''WARN: version is obsolete'' @ [CHR 0x0A] @ ''no configuration file''"

definition garbled_world :: docker_world where
  "garbled_world = world_with_ps (ExecSucceeded garbled_output)"

text \<open>
  Port 3000 is bound and \<open>lsof\<close> finds nothing (it exits with status 1 and prints
  nothing, as it does for a socket of another user).
\<close>

definition blind_world :: port_world where
  "blind_world =
     \<lparr>listen_ok = (\<lambda>p. p \<noteq> 3000),
      lsof_cmd = (\<lambda>p. ExecFailed [] ''Command failed: lsof''),
      comm_cmd = (\<lambda>q. ExecFailed [] ''Command failed: ps''),
      kill_error = (\<lambda>q. None),
      listen_ok_after = (\<lambda>p. p \<noteq> 3000)\<rparr>"

text \<open>Port 3000 is bound and \<open>lsof\<close> succeeds with an empty output.\<close>

definition silent_world :: port_world where
  "silent_world =
     \<lparr>listen_ok = (\<lambda>p. p \<noteq> 3000),
      lsof_cmd = (\<lambda>p. ExecSucceeded []),
      comm_cmd = (\<lambda>q. ExecFailed [] ''Command failed: ps''),
      kill_error = (\<lambda>q. None),
      listen_ok_after = (\<lambda>p. p \<noteq> 3000)\<rparr>"

text \<open>
  Ports 3000 and 8000 are bound; \<open>lsof\<close> finds two processes on 3000 and fails on
  8000; \<open>ps\<close> names only the first process; the second cannot be signalled; after the
  wait only 8000 is still bound.
\<close>

definition two_pids_output :: string where
  "two_pids_output = ''4242'' @ [CHR 0x0A] @ ''4243'' @ [CHR 0x0A]"

definition busy_world :: port_world where
  "busy_world =
     \<lparr>listen_ok = (\<lambda>p. p \<noteq> 3000 \<and> p \<noteq> 8000),
      lsof_cmd = (\<lambda>p. if p = 3000 then ExecSucceeded two_pids_output
                       else ExecFailed [] ''Command failed: lsof''),
      comm_cmd = (\<lambda>q. if q = 4242 then ExecSucceeded (''node'' @ [CHR 0x0A])
                       else ExecFailed [] ''Command failed: ps''),
      kill_error = (\<lambda>q. if q = 4243 then Some ''kill EPERM'' else None),
      listen_ok_after = (\<lambda>p. p \<noteq> 8000)\<rparr>"

text \<open>The clock of a polling run: a round takes 3005 ms.\<close>

definition sample_clock :: "nat \<Rightarrow> int" where
  "sample_clock n = (if n = 0 then 1000 else 1000 + 3005 * (int n - 1))"

definition recovering :: "nat \<Rightarrow> docker_world" where
  "recovering n = (if n < 2 then starting_world else healthy_world)"

text \<open>Rounds of the start loop: the ports are free and the start is rejected.\<close>

definition port_conflict_message :: string where
  "port_conflict_message = ''Port conflict detected. Another process is using required ports.''"

definition missing_image_message :: string where
  "missing_image_message = ''Required Docker images not found. Please pull images first.''"

definition round_rejected :: "string \<Rightarrow> attempt_io" where
  "round_rejected msg =
     \<lparr>checkPorts_result = Inr \<lparr>available = True, conflicts = []\<rparr>,
      modal_result = Cancel,
      killPortProcesses_result = Inr (),
      start_result = Inl msg\<rparr>"

definition sample_config :: ContainerConfig where
  "sample_config = \<lparr>adminEmail = Some ''admin@gmail.com'', adminPassword = Some ''admin123''\<rparr>"

text \<open>An email of length 255, and a valid email followed by a space.\<close>

definition long_email :: string where
  "long_email = replicate 243 (CHR ''a'') @ ''@example.com''"

definition padded_email :: string where
  "padded_email = ''a@b.c ''"

section \<open>Port conflicts are reported per process found\<close>

lemma entries_port:
  "c \<in> set (fst (port_conflict_entries w p)) \<Longrightarrow> port c = p"
  by (auto simp: port_conflict_entries_def split: sum.splits)

lemma filter_entries_same:
  "filter (\<lambda>c. port c = p) (fst (port_conflict_entries w p)) = fst (port_conflict_entries w p)"
  by (simp add: entries_port)

lemma filter_entries_other:
  "q \<noteq> p \<Longrightarrow> filter (\<lambda>c. port c = p) (fst (port_conflict_entries w q)) = []"
  by (auto simp: filter_empty_conv dest: entries_port)

lemma filter_concat_entries:
  "distinct ps \<Longrightarrow> p \<in> set ps \<Longrightarrow>
   filter (\<lambda>c. port c = p) (concat (map fst (map (port_conflict_entries w) ps))) =
   fst (port_conflict_entries w p)"
proof (induction ps)
  case Nil
  then show ?case by simp
next
  case (Cons q ps)
  show ?case
  proof (cases "q = p")
    case True
    with Cons.prems have "p \<notin> set ps" by simp
    then have "filter (\<lambda>c. port c = p) (concat (map fst (map (port_conflict_entries w) ps))) = []"
      by (induction ps) (auto simp: filter_entries_other)
    with True show ?thesis by (simp add: filter_entries_same)
  next
    case False
    with Cons show ?thesis by (simp add: filter_entries_other)
  qed
qed

lemma blocked_distinct: "distinct (blockedPorts (checkRequiredPorts w))"
  by (simp add: checkRequiredPorts_def REQUIRED_PORTS_def Let_def)

lemma blocked_unavailable:
  "p \<in> set (blockedPorts (checkRequiredPorts w)) \<Longrightarrow> \<not> available (checkRequiredPorts w)"
  by (auto simp: checkRequiredPorts_def Let_def filter_empty_conv)

lemma conflicts_of_blocked:
  assumes "p \<in> set (blockedPorts (checkRequiredPorts w))"
  shows "filter (\<lambda>c. port c = p) (conflicts (fst (getPortConflicts w))) =
         fst (port_conflict_entries w p)"
  using assms blocked_unavailable[OF assms] filter_concat_entries[OF blocked_distinct assms]
  by (simp add: getPortConflicts_def Let_def)

lemma log_of_blocked:
  assumes "p \<in> set (blockedPorts (checkRequiredPorts w))" "execPromise (lsof_cmd w p) = Inl m"
  shows "CouldNotIdentify p \<in> set (snd (getPortConflicts w))"
  using assms blocked_unavailable[OF assms(1)]
  by (auto simp: getPortConflicts_def Let_def port_conflict_entries_def intro!: bexI[of _ p])

lemma entries_log:
  "e \<in> set (snd (port_conflict_entries w q)) \<Longrightarrow>
     e = CouldNotIdentify q \<and> (\<exists>m. execPromise (lsof_cmd w q) = Inl m)"
  by (cases "execPromise (lsof_cmd w q)") (simp_all add: port_conflict_entries_def)

lemma log_only_on_failure:
  assumes "CouldNotIdentify p \<in> set (snd (getPortConflicts w))"
  shows "\<exists>m. execPromise (lsof_cmd w p) = Inl m"
proof -
  from assms obtain q where
    "CouldNotIdentify p \<in> set (snd (port_conflict_entries w q))"
    by (auto simp: getPortConflicts_def Let_def split: if_splits)
  from entries_log[OF this] show ?thesis by simp
qed

lemma blocked_silent: "blockedPorts (checkRequiredPorts silent_world) = [3000]"
  by (simp add: checkRequiredPorts_def REQUIRED_PORTS_def isPortAvailable_def silent_world_def
      Let_def)

lemma no_pids_in_empty: "parse_pids (trim []) = []"
  by (simp add: parse_pids_def trim_def parseInt_def Let_def)

lemma silent_result:
  "getPortConflicts silent_world = (\<lparr>available = False, conflicts = []\<rparr>, [])"
proof -
  have a: "\<not> available (checkRequiredPorts silent_world)"
    by (simp add: checkRequiredPorts_def REQUIRED_PORTS_def isPortAvailable_def silent_world_def)
  have l: "execPromise (lsof_cmd silent_world 3000) = Inr (trim [])"
    by (simp add: silent_world_def)
  have e: "port_conflict_entries silent_world 3000 = ([], [])"
    by (simp add: port_conflict_entries_def l no_pids_in_empty)
  show ?thesis
    using a by (simp add: getPortConflicts_def Let_def blocked_silent e)
qed

lemma pids_sample: "parse_pids (trim two_pids_output) = [4242, 4243]"
  by (simp add: two_pids_output_def parse_pids_def trim_def is_space_def parseInt_def
      digit_val_def to_lower_def List.map_filter_simps Let_def)

lemma blocked_blind: "blockedPorts (checkRequiredPorts blind_world) = [3000]"
  by (simp add: checkRequiredPorts_def REQUIRED_PORTS_def isPortAvailable_def blind_world_def
      Let_def)

lemma blocked_busy: "blockedPorts (checkRequiredPorts busy_world) = [3000, 8000]"
  by (simp add: checkRequiredPorts_def REQUIRED_PORTS_def isPortAvailable_def busy_world_def
      Let_def)

lemma lsof_busy: "execPromise (lsof_cmd busy_world 3000) = Inr (trim two_pids_output)"
  by (simp add: busy_world_def)

lemma conflicts_busy:
  "fst (getPortConflicts busy_world) =
     \<lparr>available = False,
      conflicts = [\<lparr>port = 3000, pid = 4242, processName = ''node''\<rparr>,
                   \<lparr>port = 3000, pid = 4243, processName = ''unknown''\<rparr>]\<rparr>"
proof -
  have a: "\<not> available (checkRequiredPorts busy_world)"
    by (simp add: checkRequiredPorts_def REQUIRED_PORTS_def isPortAvailable_def busy_world_def)
  have e1: "fst (port_conflict_entries busy_world 3000) =
      [\<lparr>port = 3000, pid = 4242, processName = ''node''\<rparr>,
       \<lparr>port = 3000, pid = 4243, processName = ''unknown''\<rparr>]"
    by (simp add: port_conflict_entries_def lsof_busy pids_sample)
       (simp add: busy_world_def trim_def is_space_def)
  have e2: "fst (port_conflict_entries busy_world 8000) = []"
    by (simp add: port_conflict_entries_def busy_world_def)
  show ?thesis
    using a by (simp add: getPortConflicts_def Let_def blocked_busy e1 e2)
qed

text \<open>
  C1 (as stated): every required port that \<open>checkRequiredPorts\<close> reports blocked has at
  least one entry in the conflicts of \<open>getPortConflicts\<close>, also when the lookup of the
  process ID fails. It fails where \<open>lsof\<close> fails: port 3000 is blocked and the list
  of conflicts is empty.
\<close>

theorem getPortConflicts_drops_counterexample:
  "3000 \<in> set (blockedPorts (checkRequiredPorts blind_world)) \<and>
   conflicts (fst (getPortConflicts blind_world)) = []"
  by (simp add: getPortConflicts_def blocked_blind Let_def port_conflict_entries_def)
     (simp add: checkRequiredPorts_def REQUIRED_PORTS_def isPortAvailable_def blind_world_def)

text \<open>
  C1 (amended): for a required port \<open>p\<close> that \<open>checkRequiredPorts\<close> reports blocked,
  \<open>getPortConflicts\<close> returns \<open>available = false\<close> and one conflict entry for \<open>p\<close> per
  process ID that the \<open>lsof\<close> lookup yields, so at least one exactly when that lookup
  succeeds with at least one positive numeric ID. An entry carries the trimmed process
  name, or the placeholder \<open>unknown\<close> when the name lookup fails. When the process-ID
  lookup fails there is no entry for \<open>p\<close> and the log line
  \<open>Could not identify process on port p\<close> is emitted. When the lookup succeeds that log
  line is not emitted, also when it yields no ID and so no entry.
\<close>

theorem getPortConflicts_reports:
  assumes "p \<in> set (blockedPorts (checkRequiredPorts w))"
  shows "\<not> available (fst (getPortConflicts w)) \<and>
     ((\<exists>c \<in> set (conflicts (fst (getPortConflicts w))). port c = p) \<longleftrightarrow>
        (\<exists>out. execPromise (lsof_cmd w p) = Inr out \<and> parse_pids out \<noteq> [])) \<and>
     (\<forall>out. execPromise (lsof_cmd w p) = Inr out \<longrightarrow>
        filter (\<lambda>c. port c = p) (conflicts (fst (getPortConflicts w))) =
          map (\<lambda>q. \<lparr>port = p, pid = q,
                     processName = (case execPromise (comm_cmd w q) of
                                      Inr name \<Rightarrow> trim name | Inl _ \<Rightarrow> ''unknown'')\<rparr>)
              (parse_pids out) \<and>
        CouldNotIdentify p \<notin> set (snd (getPortConflicts w))) \<and>
     (\<forall>m. execPromise (lsof_cmd w p) = Inl m \<longrightarrow>
        filter (\<lambda>c. port c = p) (conflicts (fst (getPortConflicts w))) = [] \<and>
        CouldNotIdentify p \<in> set (snd (getPortConflicts w)))"
proof -
  let ?cs = "conflicts (fst (getPortConflicts w))"
  have f: "filter (\<lambda>c. port c = p) ?cs = fst (port_conflict_entries w p)"
    by (rule conflicts_of_blocked[OF assms])
  have a: "\<not> available (fst (getPortConflicts w))"
    using blocked_unavailable[OF assms] by (simp add: getPortConflicts_def Let_def)
  have ex: "(\<exists>c \<in> set ?cs. port c = p) \<longleftrightarrow> filter (\<lambda>c. port c = p) ?cs \<noteq> []"
    by (auto simp: filter_empty_conv)
  have b: "(\<exists>c \<in> set ?cs. port c = p) \<longleftrightarrow>
        (\<exists>out. execPromise (lsof_cmd w p) = Inr out \<and> parse_pids out \<noteq> [])"
    unfolding ex f by (cases "execPromise (lsof_cmd w p)") (simp_all add: port_conflict_entries_def)
  have c: "\<forall>out. execPromise (lsof_cmd w p) = Inr out \<longrightarrow>
        filter (\<lambda>c. port c = p) ?cs =
          map (\<lambda>q. \<lparr>port = p, pid = q,
                     processName = (case execPromise (comm_cmd w q) of
                                      Inr name \<Rightarrow> trim name | Inl _ \<Rightarrow> ''unknown'')\<rparr>)
              (parse_pids out) \<and>
        CouldNotIdentify p \<notin> set (snd (getPortConflicts w))"
    unfolding f using log_only_on_failure[of p w]
    by (auto simp: port_conflict_entries_def split: sum.splits)
  have d: "\<forall>m. execPromise (lsof_cmd w p) = Inl m \<longrightarrow>
        filter (\<lambda>c. port c = p) ?cs = [] \<and> CouldNotIdentify p \<in> set (snd (getPortConflicts w))"
    unfolding f using log_of_blocked[OF assms] by (auto simp: port_conflict_entries_def)
  from a b c d show ?thesis by blast
qed

text \<open>
  The amended C1 at concrete inputs: ports 3000 and 8000 are blocked; the two processes
  found on 3000 are reported, the second under the placeholder name; nothing is reported
  for 8000, where \<open>lsof\<close> fails and the log line is emitted. Where \<open>lsof\<close> succeeds
  with an empty output on the blocked port 3000, there is neither an entry nor a log
  line.
\<close>

theorem getPortConflicts_reports_witness:
  "3000 \<in> set (blockedPorts (checkRequiredPorts busy_world)) \<and>
   8000 \<in> set (blockedPorts (checkRequiredPorts busy_world)) \<and>
   \<not> available (fst (getPortConflicts busy_world)) \<and>
   conflicts (fst (getPortConflicts busy_world)) =
     [\<lparr>port = 3000, pid = 4242, processName = ''node''\<rparr>,
      \<lparr>port = 3000, pid = 4243, processName = ''unknown''\<rparr>] \<and>
   CouldNotIdentify 8000 \<in> set (snd (getPortConflicts busy_world)) \<and>
   CouldNotIdentify 3000 \<notin> set (snd (getPortConflicts busy_world)) \<and>
   3000 \<in> set (blockedPorts (checkRequiredPorts silent_world)) \<and>
   execPromise (lsof_cmd silent_world 3000) = Inr [] \<and>
   getPortConflicts silent_world = (\<lparr>available = False, conflicts = []\<rparr>, [])"
proof -
  have b3: "3000 \<in> set (blockedPorts (checkRequiredPorts busy_world))"
    and b8: "8000 \<in> set (blockedPorts (checkRequiredPorts busy_world))"
    by (simp_all add: blocked_busy)
  have f: "execPromise (lsof_cmd busy_world 8000) = Inl ''Command failed: lsof''"
    by (simp add: busy_world_def)
  from getPortConflicts_reports [OF b8] f
  have l8: "CouldNotIdentify 8000 \<in> set (snd (getPortConflicts busy_world))" by blast
  from getPortConflicts_reports [OF b3] lsof_busy
  have l3: "CouldNotIdentify 3000 \<notin> set (snd (getPortConflicts busy_world))" by blast
  have s3: "3000 \<in> set (blockedPorts (checkRequiredPorts silent_world))"
    by (simp add: blocked_silent)
  have sl: "execPromise (lsof_cmd silent_world 3000) = Inr []"
    by (simp add: silent_world_def trim_def)
  from b3 b8 l8 l3 s3 sl getPortConflicts_reports [OF b3] show ?thesis
    by (simp add: conflicts_busy silent_result)
qed

section \<open>Freeing ports\<close>

lemma verify_freed_events:
  "snd (verify_freed w ports) =
     map ProbePort (takeWhile (listen_ok_after w) ports @
                    take 1 (dropWhile (listen_ok_after w) ports))"
  by (induction ports) (auto split: prod.splits)

lemma verify_freed_ok:
  "fst (verify_freed w ports) = Inr () \<longleftrightarrow> (\<forall>p \<in> set ports. listen_ok_after w p)"
  by (induction ports) (auto split: prod.splits)

lemma verify_freed_throws:
  "(\<exists>p. fst (verify_freed w ports) = Inl (StillInUse p)) \<longleftrightarrow>
     (\<exists>p \<in> set ports. \<not> listen_ok_after w p)"
  by (induction ports) (auto split: prod.splits)

lemma kill_port_events:
  "e \<in> set (kill_port w p) \<Longrightarrow>
     e = ExecLsof p \<or> (\<exists>q. e = ProcessKill q SIGTERM) \<or> (\<exists>l. e = EmitLog l)"
  by (auto simp: kill_port_def kill_pid_def split: sum.splits)

lemma kill_port_kills:
  "execPromise (lsof_cmd w p) = Inr out \<Longrightarrow> q \<in> set (parse_pids out) \<Longrightarrow>
     ProcessKill q SIGTERM \<in> set (kill_port w p)"
  by (auto simp: kill_port_def kill_pid_def)

lemma kill_port_busy_3000:
  "kill_port busy_world 3000 =
      [ExecLsof 3000, ProcessKill 4242 SIGTERM, EmitLog (Killed 4242 3000),
       ProcessKill 4243 SIGTERM, EmitLog (CouldNotKill 4243 3000 ''kill EPERM'')]"
  by (simp add: kill_port_def lsof_busy pids_sample kill_pid_def) (simp add: busy_world_def)

lemma kill_port_busy_8000: "kill_port busy_world 8000 = [ExecLsof 8000]"
  by (simp add: kill_port_def busy_world_def)

lemma busy_after: "listen_ok_after busy_world 3000" "\<not> listen_ok_after busy_world 8000"
  by (simp_all add: busy_world_def)

text \<open>
  C8 (as stated): after the wait \<open>killPortProcesses\<close> re-probes every given port. It
  fails where an earlier port is still bound: asked to free 8000 and 3000, it throws
  for 8000 and never probes 3000.
\<close>

theorem killPortProcesses_probe_counterexample:
  "killPortProcesses busy_world [8000, 3000] =
     (Inl (StillInUse 8000),
      [ExecLsof 8000, ExecLsof 3000, ProcessKill 4242 SIGTERM, EmitLog (Killed 4242 3000),
       ProcessKill 4243 SIGTERM, EmitLog (CouldNotKill 4243 3000 ''kill EPERM''),
       SetTimeout 1500, ProbePort 8000]) \<and>
   ProbePort 3000 \<notin> set (snd (killPortProcesses busy_world [8000, 3000]))"
  by (simp add: killPortProcesses_def kill_port_busy_3000 kill_port_busy_8000 busy_after)

text \<open>
  C8 (amended): \<open>killPortProcesses\<close> sends only SIGTERM, never SIGKILL, and sends it to
  every process that \<open>lsof\<close> finds listening on a given port; then it waits 1500 ms;
  then it re-probes the given ports in order, up to and including the first one that is
  still bound. It throws the still-in-use error if and only if some given port is
  still bound after the wait, and returns normally if and only if none is, in which
  case every given port has been re-probed. Nothing but the lookups, the SIGTERM
  signals and log lines happens before the wait.
\<close>

theorem killPortProcesses_graceful:
  "(\<forall>q s. ProcessKill q s \<in> set (snd (killPortProcesses w ports)) \<longrightarrow> s = SIGTERM) \<and>
   (\<forall>p \<in> set ports. \<forall>out. execPromise (lsof_cmd w p) = Inr out \<longrightarrow>
      (\<forall>q \<in> set (parse_pids out).
         ProcessKill q SIGTERM \<in> set (snd (killPortProcesses w ports)))) \<and>
   snd (killPortProcesses w ports) =
     concat (map (kill_port w) ports) @ [SetTimeout 1500] @
     map ProbePort (takeWhile (listen_ok_after w) ports @
                    take 1 (dropWhile (listen_ok_after w) ports)) \<and>
   (\<forall>e \<in> set (concat (map (kill_port w) ports)).
      (\<exists>p. e = ExecLsof p) \<or> (\<exists>q. e = ProcessKill q SIGTERM) \<or> (\<exists>l. e = EmitLog l)) \<and>
   ((\<exists>p. fst (killPortProcesses w ports) = Inl (StillInUse p)) \<longleftrightarrow>
      (\<exists>p \<in> set ports. \<not> listen_ok_after w p)) \<and>
   (fst (killPortProcesses w ports) = Inr () \<longleftrightarrow> (\<forall>p \<in> set ports. listen_ok_after w p)) \<and>
   (fst (killPortProcesses w ports) = Inr () \<longrightarrow>
      filter (\<lambda>e. \<exists>p. e = ProbePort p) (snd (killPortProcesses w ports)) = map ProbePort ports)"
proof -
  let ?kills = "concat (map (kill_port w) ports)"
  let ?probes = "map ProbePort (takeWhile (listen_ok_after w) ports @
                    take 1 (dropWhile (listen_ok_after w) ports))"
  have ev: "snd (killPortProcesses w ports) = ?kills @ [SetTimeout 1500] @ ?probes"
    using verify_freed_events[of w ports]
    by (cases "verify_freed w ports") (simp add: killPortProcesses_def)
  have kills: "\<forall>e \<in> set ?kills.
      (\<exists>p. e = ExecLsof p) \<or> (\<exists>q. e = ProcessKill q SIGTERM) \<or> (\<exists>l. e = EmitLog l)"
    using kill_port_events by fastforce
  have only: "\<forall>q s. ProcessKill q s \<in> set (snd (killPortProcesses w ports)) \<longrightarrow> s = SIGTERM"
    unfolding ev using kills by auto
  have each: "\<forall>p \<in> set ports. \<forall>out. execPromise (lsof_cmd w p) = Inr out \<longrightarrow>
      (\<forall>q \<in> set (parse_pids out).
         ProcessKill q SIGTERM \<in> set (snd (killPortProcesses w ports)))"
    unfolding ev using kill_port_kills by fastforce
  have thr: "(\<exists>p. fst (killPortProcesses w ports) = Inl (StillInUse p)) \<longleftrightarrow>
      (\<exists>p \<in> set ports. \<not> listen_ok_after w p)"
    using verify_freed_throws[of w ports]
    by (cases "verify_freed w ports") (simp add: killPortProcesses_def)
  have ok: "fst (killPortProcesses w ports) = Inr () \<longleftrightarrow>
      (\<forall>p \<in> set ports. listen_ok_after w p)"
    using verify_freed_ok[of w ports]
    by (cases "verify_freed w ports") (simp add: killPortProcesses_def)
  have nk: "filter (\<lambda>e. \<exists>p. e = ProbePort p) ?kills = []"
    using kills by (auto simp: filter_empty_conv)
  have all: "fst (killPortProcesses w ports) = Inr () \<longrightarrow>
      filter (\<lambda>e. \<exists>p. e = ProbePort p) (snd (killPortProcesses w ports)) = map ProbePort ports"
  proof
    assume "fst (killPortProcesses w ports) = Inr ()"
    with ok have "\<forall>p \<in> set ports. listen_ok_after w p" by simp
    then have tw: "takeWhile (listen_ok_after w) ports = ports"
      and dw: "dropWhile (listen_ok_after w) ports = []"
      by (simp_all add: takeWhile_eq_all_conv dropWhile_eq_Nil_conv)
    show "filter (\<lambda>e. \<exists>p. e = ProbePort p) (snd (killPortProcesses w ports)) =
        map ProbePort ports"
      unfolding ev tw dw by (simp add: nk filter_map o_def)
  qed
  from only each ev kills thr ok all show ?thesis by blast
qed

text \<open>
  The amended C8 at a concrete input: freeing 3000 and 8000 signals both processes on
  3000 with SIGTERM, waits, probes both ports and throws for 8000; freeing 3000 alone
  returns normally.
\<close>

theorem killPortProcesses_graceful_witness:
  "killPortProcesses busy_world [3000, 8000] =
     (Inl (StillInUse 8000),
      [ExecLsof 3000, ProcessKill 4242 SIGTERM, EmitLog (Killed 4242 3000),
       ProcessKill 4243 SIGTERM, EmitLog (CouldNotKill 4243 3000 ''kill EPERM''),
       ExecLsof 8000, SetTimeout 1500, ProbePort 3000, ProbePort 8000]) \<and>
   killPortProcesses busy_world [3000] =
     (Inr (),
      [ExecLsof 3000, ProcessKill 4242 SIGTERM, EmitLog (Killed 4242 3000),
       ProcessKill 4243 SIGTERM, EmitLog (CouldNotKill 4243 3000 ''kill EPERM''),
       SetTimeout 1500, ProbePort 3000])"
proof -
  note tr = killPortProcesses_graceful [THEN conjunct2, THEN conjunct2, THEN conjunct1]
  note ok = killPortProcesses_graceful [THEN conjunct2, THEN conjunct2, THEN conjunct2,
      THEN conjunct2, THEN conjunct2, THEN conjunct1]
  have t2: "snd (killPortProcesses busy_world [3000, 8000]) =
      [ExecLsof 3000, ProcessKill 4242 SIGTERM, EmitLog (Killed 4242 3000),
       ProcessKill 4243 SIGTERM, EmitLog (CouldNotKill 4243 3000 ''kill EPERM''),
       ExecLsof 8000, SetTimeout 1500, ProbePort 3000, ProbePort 8000]"
    by (simp add: tr kill_port_busy_3000 kill_port_busy_8000 busy_after)
  have t1: "snd (killPortProcesses busy_world [3000]) =
      [ExecLsof 3000, ProcessKill 4242 SIGTERM, EmitLog (Killed 4242 3000),
       ProcessKill 4243 SIGTERM, EmitLog (CouldNotKill 4243 3000 ''kill EPERM''),
       SetTimeout 1500, ProbePort 3000]"
    by (simp add: tr kill_port_busy_3000 busy_after)
  have r1: "fst (killPortProcesses busy_world [3000]) = Inr ()"
    by (simp add: ok busy_after)
  have r2: "fst (killPortProcesses busy_world [3000, 8000]) = Inl (StillInUse 8000)"
    by (simp add: killPortProcesses_def busy_after split: prod.splits)
  show ?thesis
    using t1 t2 r1 r2 by (simp add: prod_eq_iff)
qed

section \<open>Credential validation\<close>

lemma rejected_early_simps:
  "spawned (rejected_early msg) = None"
  "settled (final (rejected_early msg)) = Some (Inl (Error msg))"
  by (simp_all add: rejected_early_def)

lemma startContainers_invalid:
  "validateCredentials config = Inl msg \<Longrightarrow>
     spawned (startContainers h config events) = None \<and>
     (\<exists>m. settled (final (startContainers h config events)) = Some (Inl (Error m)))"
  by (simp add: startContainers_def rejected_early_simps split: sum.splits)

lemma trim_id:
  assumes "s \<noteq> []" "\<not> is_space (hd s)" "\<not> is_space (last s)"
  shows "trim s = s"
proof -
  have a: "dropWhile is_space s = s"
    using assms by (simp add: dropWhile_eq_self_iff)
  have b: "dropWhile is_space (rev s) = rev s"
    using assms by (simp add: dropWhile_eq_self_iff hd_rev)
  show ?thesis by (simp add: trim_def a b)
qed

lemma not_an_email: "\<not> rx_match email_regex (trim ''not-an-email'')"
  by (simp add: trim_def is_space_def email_regex_def not_space_or_at_def)

lemma not_an_email_short: "\<not> 254 < length (trim ''not-an-email'')"
  by (simp add: trim_def is_space_def)

lemma long_email_length: "length (trim long_email) = 255"
  unfolding long_email_def by (subst trim_id) (simp_all add: is_space_def hd_append)

lemma padded_email_trim: "trim padded_email = ''a@b.c''"
  by (simp add: padded_email_def trim_def is_space_def)

lemma padded_email_raw: "\<not> rx_match email_regex padded_email"
  by (simp add: padded_email_def email_regex_def not_space_or_at_def is_space_def)

lemma padded_email_trimmed: "rx_match email_regex ''a@b.c''"
  by (simp add: email_regex_def not_space_or_at_def is_space_def)

text \<open>
  C5 (as stated): validation rejects every password shorter than 8 and every email that
  does not match the address shape. It fails for the empty password, which has length
  0 and is skipped, and for an email with a trailing space, which does not match the
  shape as given and is accepted in its trimmed form.
\<close>

theorem validateCredentials_empty_counterexample:
  "length ('''' :: string) < 8 \<and>
   validateCredentials (Some \<lparr>adminEmail = None, adminPassword = Some ''''\<rparr>) =
     Inr \<lparr>cred_email = None, cred_password = None\<rparr> \<and>
   \<not> rx_match email_regex padded_email \<and>
   validateCredentials (Some \<lparr>adminEmail = Some padded_email, adminPassword = None\<rparr>) =
     Inr \<lparr>cred_email = Some ''a@b.c'', cred_password = None\<rparr>"
proof -
  have 1: "validateCredentials (Some \<lparr>adminEmail = None, adminPassword = Some ''''\<rparr>) =
     Inr \<lparr>cred_email = None, cred_password = None\<rparr>"
    by (simp add: validateCredentials_def opt_field_def)
  have n: "padded_email \<noteq> []" by (simp add: padded_email_def)
  have 2: "validateCredentials (Some \<lparr>adminEmail = Some padded_email, adminPassword = None\<rparr>) =
     Inr \<lparr>cred_email = Some ''a@b.c'', cred_password = None\<rparr>"
    by (simp add: validateCredentials_def opt_field_def n padded_email_trim
        padded_email_trimmed Let_def)
  from 1 2 padded_email_raw show ?thesis by simp
qed

text \<open>
  C5 (amended): validation applies to non-empty values, and to the email after trimming.
  \<open>startContainers\<close> rejects, before it spawns a subprocess, a non-empty email whose
  trimmed form is longer than 254 or does not match the address shape, and a non-empty
  password shorter than 8 or longer than 128. A password of exactly 8 arbitrary
  characters is accepted, alone or next to a valid email.
\<close>

theorem validateCredentials_rejects:
  "(opt_field adminEmail config = Some e \<and> e \<noteq> [] \<and>
      (254 < length (trim e) \<or> \<not> rx_match email_regex (trim e)) \<longrightarrow>
      validateCredentials config =
        Inl (if 254 < length (trim e) then ''Email address too long''
             else ''Invalid email format'') \<and>
      spawned (startContainers h config events) = None \<and>
      (\<exists>m. settled (final (startContainers h config events)) = Some (Inl (Error m)))) \<and>
   (opt_field adminPassword config = Some pw \<and> pw \<noteq> [] \<and>
      (length pw < 8 \<or> 128 < length pw) \<longrightarrow>
      (\<exists>msg. validateCredentials config = Inl msg) \<and>
      (\<not> truthy (opt_field adminEmail config) \<longrightarrow>
         validateCredentials config =
           Inl (if 128 < length pw then ''Password too long''
                else ''Password must be at least 8 characters'')) \<and>
      spawned (startContainers h config events) = None \<and>
      (\<exists>m. settled (final (startContainers h config events)) = Some (Inl (Error m)))) \<and>
   (length pw8 = 8 \<longrightarrow>
      validateCredentials (Some \<lparr>adminEmail = None, adminPassword = Some pw8\<rparr>) =
        Inr \<lparr>cred_email = None, cred_password = Some pw8\<rparr> \<and>
      (e \<noteq> [] \<and> length (trim e) \<le> 254 \<and> rx_match email_regex (trim e) \<longrightarrow>
         validateCredentials (Some \<lparr>adminEmail = Some e, adminPassword = Some pw8\<rparr>) =
           Inr \<lparr>cred_email = Some (trim e), cred_password = Some pw8\<rparr>))"
proof -
  have email: "validateCredentials config =
        Inl (if 254 < length (trim e) then ''Email address too long''
             else ''Invalid email format'')"
    if "opt_field adminEmail config = Some e" "e \<noteq> []"
      "254 < length (trim e) \<or> \<not> rx_match email_regex (trim e)"
    using that by (auto simp: validateCredentials_def Let_def)
  have pw1: "\<exists>msg. validateCredentials config = Inl msg"
    if "opt_field adminPassword config = Some pw" "pw \<noteq> []" "length pw < 8 \<or> 128 < length pw"
    using that by (auto simp: validateCredentials_def Let_def split: option.splits sum.splits)
  have pw2: "validateCredentials config =
           Inl (if 128 < length pw then ''Password too long''
                else ''Password must be at least 8 characters'')"
    if "opt_field adminPassword config = Some pw" "pw \<noteq> []" "length pw < 8 \<or> 128 < length pw"
      "\<not> truthy (opt_field adminEmail config)"
    using that by (auto simp: validateCredentials_def truthy_def Let_def split: option.splits)
  have ok1: "validateCredentials (Some \<lparr>adminEmail = None, adminPassword = Some pw8\<rparr>) =
        Inr \<lparr>cred_email = None, cred_password = Some pw8\<rparr>" if "length pw8 = 8"
    using that by (auto simp: validateCredentials_def opt_field_def)
  have ok2: "validateCredentials (Some \<lparr>adminEmail = Some e, adminPassword = Some pw8\<rparr>) =
           Inr \<lparr>cred_email = Some (trim e), cred_password = Some pw8\<rparr>"
    if "length pw8 = 8" "e \<noteq> []" "length (trim e) \<le> 254" "rx_match email_regex (trim e)"
    using that by (auto simp: validateCredentials_def opt_field_def Let_def)
  note inv = startContainers_invalid[of config _ h events]
  have A: "validateCredentials config =
        Inl (if 254 < length (trim e) then ''Email address too long''
             else ''Invalid email format'') \<and>
      spawned (startContainers h config events) = None \<and>
      (\<exists>m. settled (final (startContainers h config events)) = Some (Inl (Error m)))"
    if "opt_field adminEmail config = Some e \<and> e \<noteq> [] \<and>
      (254 < length (trim e) \<or> \<not> rx_match email_regex (trim e))"
    using email[of] inv that by blast
  have B: "(\<exists>msg. validateCredentials config = Inl msg) \<and>
      (\<not> truthy (opt_field adminEmail config) \<longrightarrow>
         validateCredentials config =
           Inl (if 128 < length pw then ''Password too long''
                else ''Password must be at least 8 characters'')) \<and>
      spawned (startContainers h config events) = None \<and>
      (\<exists>m. settled (final (startContainers h config events)) = Some (Inl (Error m)))"
    if "opt_field adminPassword config = Some pw \<and> pw \<noteq> [] \<and>
      (length pw < 8 \<or> 128 < length pw)"
    using pw1 pw2 inv that by blast
  from A B ok1 ok2 show ?thesis by blast
qed

text \<open>
  The amended C5 at concrete inputs: \<open>not-an-email\<close> and an email of length 255 are
  rejected and nothing is spawned; a password of length 7 is rejected; a password of 8
  arbitrary characters is accepted.
\<close>

theorem validateCredentials_rejects_witness:
  "validateCredentials
     (Some \<lparr>adminEmail = Some ''not-an-email'', adminPassword = Some ''admin123''\<rparr>) =
     Inl ''Invalid email format'' \<and>
   spawned (startContainers sample_host
      (Some \<lparr>adminEmail = Some ''not-an-email'', adminPassword = Some ''admin123''\<rparr>)
      [Close (Some 0)]) = None \<and>
   length long_email = 255 \<and>
   validateCredentials (Some \<lparr>adminEmail = Some long_email, adminPassword = None\<rparr>) =
     Inl ''Email address too long'' \<and>
   validateCredentials (Some \<lparr>adminEmail = None, adminPassword = Some ''1234567''\<rparr>) =
     Inl ''Password must be at least 8 characters'' \<and>
   spawned (startContainers sample_host
      (Some \<lparr>adminEmail = None, adminPassword = Some ''1234567''\<rparr>) [Close (Some 0)]) = None \<and>
   validateCredentials (Some \<lparr>adminEmail = None, adminPassword = Some ''a b!c d?''\<rparr>) =
     Inr \<lparr>cred_email = None, cred_password = Some ''a b!c d?''\<rparr>"
proof -
  let ?c1 = "Some \<lparr>adminEmail = Some ''not-an-email'', adminPassword = Some ''admin123''\<rparr>"
  let ?c2 = "Some \<lparr>adminEmail = None, adminPassword = Some ''1234567''\<rparr>"
  let ?c3 = "Some \<lparr>adminEmail = Some long_email, adminPassword = None\<rparr>"
  have e: "opt_field adminEmail ?c1 = Some ''not-an-email''"
    and p: "opt_field adminPassword ?c2 = Some ''1234567''"
    and n: "\<not> truthy (opt_field adminEmail ?c2)"
    and l: "opt_field adminEmail ?c3 = Some long_email"
    by (simp_all add: opt_field_def truthy_def)
  have ll: "length long_email = 255" "long_email \<noteq> []"
    by (simp_all add: long_email_def)
  note t = validateCredentials_rejects
  from t [of ?c1 "''not-an-email''" sample_host "[Close (Some 0)]"] e
    not_an_email_short not_an_email
  have a: "validateCredentials ?c1 = Inl ''Invalid email format''"
    and b: "spawned (startContainers sample_host ?c1 [Close (Some 0)]) = None"
    by simp_all
  from t [of ?c3 long_email sample_host "[Close (Some 0)]"] l ll(2) long_email_length
  have g: "validateCredentials ?c3 = Inl ''Email address too long''"
    by simp
  from t [of ?c2 "''not-an-email''" sample_host "[Close (Some 0)]" "''1234567''" "''a b!c d?''"]
    p n
  have c: "validateCredentials ?c2 = Inl ''Password must be at least 8 characters''"
    and d: "spawned (startContainers sample_host ?c2 [Close (Some 0)]) = None"
    and f: "validateCredentials (Some \<lparr>adminEmail = None, adminPassword = Some ''a b!c d?''\<rparr>) =
      Inr \<lparr>cred_email = None, cred_password = Some ''a b!c d?''\<rparr>"
    by simp_all
  from a b c d f g ll(1) show ?thesis by simp
qed

text \<open>
  C10 (as stated): when \<open>adminEmail\<close> is absent, the variable \<open>ADMIN_EMAIL\<close> is not set
  for the container-start subprocess. It fails on a host whose own environment has
  \<open>ADMIN_EMAIL\<close>: the subprocess environment is built from \<open>process.env\<close> and has it
  too.
\<close>

theorem validateCredentials_inherited_counterexample:
  "opt_field adminEmail (Some \<lparr>adminEmail = None, adminPassword = None\<rparr>) = None \<and>
   process_env inherited_host ''ADMIN_EMAIL'' = Some ''root@example.com'' \<and>
   map_option (\<lambda>rq. spawn_env rq ''ADMIN_EMAIL'')
     (spawned (startContainers inherited_host
        (Some \<lparr>adminEmail = None, adminPassword = None\<rparr>) [Close (Some 0)])) =
     Some (Some ''root@example.com'')"
  by (simp add: opt_field_def startContainers_def validateCredentials_def getComposePath_def
      inherited_host_def truthy_def EXTENDED_PATH_def Let_def)

text \<open>
  C10 (amended): an absent or empty \<open>adminEmail\<close> (likewise \<open>adminPassword\<close>) is
  skipped: neither of its two errors is thrown, the validated credentials carry no
  value for it, and \<open>startContainers\<close> makes no assignment to \<open>ADMIN_EMAIL\<close> (likewise
  \<open>ADMIN_PASSWORD\<close>): the subprocess has the variable exactly as the environment of the
  main process has it, so it is not set for the subprocess when the main process has
  none, and it is the inherited value otherwise. With both fields absent or empty
  validation succeeds.
\<close>

theorem validateCredentials_skips_empty:
  "(\<not> truthy (opt_field adminEmail config) \<longrightarrow>
      validateCredentials config \<noteq> Inl ''Email address too long'' \<and>
      validateCredentials config \<noteq> Inl ''Invalid email format'' \<and>
      (\<forall>c. validateCredentials config = Inr c \<longrightarrow> cred_email c = None) \<and>
      (\<forall>rq. spawned (startContainers h config events) = Some rq \<longrightarrow>
         spawn_env rq ''ADMIN_EMAIL'' = process_env h ''ADMIN_EMAIL'' \<and>
         (process_env h ''ADMIN_EMAIL'' = None \<longrightarrow> spawn_env rq ''ADMIN_EMAIL'' = None))) \<and>
   (\<not> truthy (opt_field adminPassword config) \<longrightarrow>
      validateCredentials config \<noteq> Inl ''Password too long'' \<and>
      validateCredentials config \<noteq> Inl ''Password must be at least 8 characters'' \<and>
      (\<forall>c. validateCredentials config = Inr c \<longrightarrow> cred_password c = None) \<and>
      (\<forall>rq. spawned (startContainers h config events) = Some rq \<longrightarrow>
         spawn_env rq ''ADMIN_PASSWORD'' = process_env h ''ADMIN_PASSWORD'' \<and>
         (process_env h ''ADMIN_PASSWORD'' = None \<longrightarrow>
            spawn_env rq ''ADMIN_PASSWORD'' = None))) \<and>
   (\<not> truthy (opt_field adminEmail config) \<and> \<not> truthy (opt_field adminPassword config) \<longrightarrow>
      validateCredentials config = Inr \<lparr>cred_email = None, cred_password = None\<rparr>)"
proof -
  have e1: "validateCredentials config \<noteq> Inl ''Email address too long'' \<and>
      validateCredentials config \<noteq> Inl ''Invalid email format'' \<and>
      (\<forall>c. validateCredentials config = Inr c \<longrightarrow> cred_email c = None)"
    if "\<not> truthy (opt_field adminEmail config)"
    using that
    by (auto simp: validateCredentials_def truthy_def Let_def split: option.splits if_splits)
  have p1: "validateCredentials config \<noteq> Inl ''Password too long'' \<and>
      validateCredentials config \<noteq> Inl ''Password must be at least 8 characters'' \<and>
      (\<forall>c. validateCredentials config = Inr c \<longrightarrow> cred_password c = None)"
    if "\<not> truthy (opt_field adminPassword config)"
    using that
    by (auto simp: validateCredentials_def truthy_def Let_def split: option.splits if_splits)
  have e2: "spawn_env rq ''ADMIN_EMAIL'' = process_env h ''ADMIN_EMAIL''"
    if "\<not> truthy (opt_field adminEmail config)"
      "spawned (startContainers h config events) = Some rq" for rq
  proof -
    from that(2) obtain c where c: "validateCredentials config = Inr c"
      by (auto simp: startContainers_def rejected_early_def split: sum.splits)
    with e1[OF that(1)] have "cred_email c = None" by simp
    with that(2) c show ?thesis
      by (auto simp: startContainers_def rejected_early_def truthy_def Let_def split: sum.splits)
  qed
  have p2: "spawn_env rq ''ADMIN_PASSWORD'' = process_env h ''ADMIN_PASSWORD''"
    if "\<not> truthy (opt_field adminPassword config)"
      "spawned (startContainers h config events) = Some rq" for rq
  proof -
    from that(2) obtain c where c: "validateCredentials config = Inr c"
      by (auto simp: startContainers_def rejected_early_def split: sum.splits)
    with p1[OF that(1)] have "cred_password c = None" by simp
    with that(2) c show ?thesis
      by (auto simp: startContainers_def rejected_early_def truthy_def Let_def split: sum.splits)
  qed
  have both: "validateCredentials config = Inr \<lparr>cred_email = None, cred_password = None\<rparr>"
    if "\<not> truthy (opt_field adminEmail config)" "\<not> truthy (opt_field adminPassword config)"
    using that
    by (auto simp: validateCredentials_def truthy_def Let_def split: option.splits if_splits)
  have e3: "process_env h ''ADMIN_EMAIL'' = None \<longrightarrow> spawn_env rq ''ADMIN_EMAIL'' = None"
    if "\<not> truthy (opt_field adminEmail config)"
      "spawned (startContainers h config events) = Some rq" for rq
    using e2[OF that] by simp
  have p3: "process_env h ''ADMIN_PASSWORD'' = None \<longrightarrow>
      spawn_env rq ''ADMIN_PASSWORD'' = None"
    if "\<not> truthy (opt_field adminPassword config)"
      "spawned (startContainers h config events) = Some rq" for rq
    using p2[OF that] by simp
  from e1 e2 e3 p1 p2 p3 both show ?thesis by blast
qed

text \<open>
  The amended C10 at concrete inputs: an empty email and no password pass validation,
  and the subprocess gets the environment of the main process with only \<open>PATH\<close>
  replaced: without \<open>ADMIN_EMAIL\<close> on a host that has none, with the inherited value
  on a host that has one.
\<close>

theorem validateCredentials_skips_empty_witness:
  "\<not> truthy (opt_field adminEmail (Some \<lparr>adminEmail = Some '''', adminPassword = None\<rparr>)) \<and>
   \<not> truthy (opt_field adminPassword (Some \<lparr>adminEmail = Some '''', adminPassword = None\<rparr>)) \<and>
   validateCredentials (Some \<lparr>adminEmail = Some '''', adminPassword = None\<rparr>) =
     Inr \<lparr>cred_email = None, cred_password = None\<rparr> \<and>
   map_option spawn_env (spawned (startContainers sample_host
       (Some \<lparr>adminEmail = Some '''', adminPassword = None\<rparr>) [Close (Some 0)])) =
     Some [''PATH'' \<mapsto> ''/usr/local/bin:/opt/homebrew/bin:/usr/bin:/bin:/usr/bin:/bin'',
           ''HOME'' \<mapsto> ''/Users/dev''] \<and>
   map_option spawn_env (spawned (startContainers inherited_host
       (Some \<lparr>adminEmail = Some '''', adminPassword = None\<rparr>) [Close (Some 0)])) =
     Some [''PATH'' \<mapsto> ''/usr/local/bin:/opt/homebrew/bin:/usr/bin:/bin:/usr/bin:/bin'',
           ''ADMIN_EMAIL'' \<mapsto> ''root@example.com'']"
proof -
  let ?c = "Some \<lparr>adminEmail = Some '''', adminPassword = None\<rparr>"
  have a: "\<not> truthy (opt_field adminEmail ?c)" and b: "\<not> truthy (opt_field adminPassword ?c)"
    by (simp_all add: truthy_def opt_field_def)
  from validateCredentials_skips_empty [of ?c] a b
  have v: "validateCredentials ?c = Inr \<lparr>cred_email = None, cred_password = None\<rparr>"
    by blast
  have "map_option spawn_env (spawned (startContainers sample_host ?c [Close (Some 0)])) =
     Some [''PATH'' \<mapsto> ''/usr/local/bin:/opt/homebrew/bin:/usr/bin:/bin:/usr/bin:/bin'',
           ''HOME'' \<mapsto> ''/Users/dev'']"
    by (auto simp: startContainers_def v getComposePath_def sample_host_def truthy_def
        EXTENDED_PATH_def Let_def)
  moreover
  have "map_option spawn_env (spawned (startContainers inherited_host ?c [Close (Some 0)])) =
     Some [''PATH'' \<mapsto> ''/usr/local/bin:/opt/homebrew/bin:/usr/bin:/bin:/usr/bin:/bin'',
           ''ADMIN_EMAIL'' \<mapsto> ''root@example.com'']"
    by (auto simp: startContainers_def v getComposePath_def inherited_host_def truthy_def
        EXTENDED_PATH_def Let_def)
  ultimately show ?thesis using a b v by simp
qed

section \<open>The status query\<close>

lemma parse_lines_skip:
  "parse_lines parse ls = parse_lines parse (filter (\<lambda>l. parse l \<noteq> None) ls)"
  by (induction ls) (auto simp: parse_lines_def List.map_filter_simps split: option.splits)

lemma parse_lines_all_fail:
  "list_all (\<lambda>l. parse l = None) ls \<Longrightarrow> parse_lines parse ls = []"
  by (induction ls) (auto simp: parse_lines_def List.map_filter_simps)

lemma status_ok_branch:
  assumes "isDockerInstalled w" "isDockerRunning w" "compose_exists w"
    and "execPromise (ps_cmd w) = Inr psOutput"
  shows "getDockerStatus parse w =
     \<lparr>installed = True, running = True,
      containersUp = (3 \<le> length (parse_lines parse (nonempty_lines psOutput)) \<and>
                      list_all state_running (parse_lines parse (nonempty_lines psOutput))),
      healthy = (3 \<le> length (parse_lines parse (nonempty_lines psOutput)) \<and>
                 list_all state_running (parse_lines parse (nonempty_lines psOutput)) \<and>
                 list_all health_ok (parse_lines parse (nonempty_lines psOutput))),
      error = None\<rparr>"
  using assms
  by (auto simp: getDockerStatus_def getComposePath_def Let_def nonempty_lines_def parse_lines_def List.map_filter_simps)

lemma world_basics:
  "isDockerInstalled (world_with_ps ps)" "isDockerRunning (world_with_ps ps)"
  "compose_exists (world_with_ps ps)" "ps_cmd (world_with_ps ps) = ps"
  by (simp_all add: world_with_ps_def isDockerInstalled_def isDockerRunning_def)

lemma lines_healthy_output:
  "nonempty_lines (trim healthy_output) =
     [rec_healthy, ''WARN: version is obsolete'', rec_no_probe, rec_healthy]"
  by (simp add: healthy_output_def rec_healthy_def rec_no_probe_def trim_def is_space_def
      nonempty_lines_def)

lemma lines_starting_output:
  "nonempty_lines (trim starting_output) = [rec_healthy, rec_starting, rec_healthy]"
  by (simp add: starting_output_def rec_healthy_def rec_starting_def trim_def is_space_def
      nonempty_lines_def)

lemma lines_garbled_output:
  "nonempty_lines (trim garbled_output) =
     [''WARN: version is obsolete'', ''no configuration file'']"
  by (simp add: garbled_output_def trim_def is_space_def nonempty_lines_def)

lemma sample_parse_values:
  "sample_parse rec_healthy =
     Some (JObj [(''State'', JStr ''running''), (''Health'', JStr ''healthy'')])"
  "sample_parse rec_no_probe =
     Some (JObj [(''State'', JStr ''running''), (''Health'', JStr '''')])"
  "sample_parse rec_starting =
     Some (JObj [(''State'', JStr ''running''), (''Health'', JStr ''starting'')])"
  "sample_parse ''WARN: version is obsolete'' = None"
  "sample_parse ''no configuration file'' = None"
  by (simp_all add: sample_parse_def rec_healthy_def rec_no_probe_def rec_starting_def)

lemma containers_healthy_output:
  "parse_lines sample_parse (nonempty_lines (trim healthy_output)) =
     [JObj [(''State'', JStr ''running''), (''Health'', JStr ''healthy'')],
      JObj [(''State'', JStr ''running''), (''Health'', JStr '''')],
      JObj [(''State'', JStr ''running''), (''Health'', JStr ''healthy'')]]"
  by (simp add: lines_healthy_output parse_lines_def List.map_filter_simps sample_parse_values)

lemma containers_starting_output:
  "parse_lines sample_parse (nonempty_lines (trim starting_output)) =
     [JObj [(''State'', JStr ''running''), (''Health'', JStr ''healthy'')],
      JObj [(''State'', JStr ''running''), (''Health'', JStr ''starting'')],
      JObj [(''State'', JStr ''running''), (''Health'', JStr ''healthy'')]]"
  by (simp add: lines_starting_output parse_lines_def List.map_filter_simps sample_parse_values)

lemma status_healthy_world:
  "getDockerStatus sample_parse healthy_world =
     \<lparr>installed = True, running = True, containersUp = True, healthy = True, error = None\<rparr>"
  unfolding healthy_world_def
  by (subst status_ok_branch[OF world_basics(1,2,3), where psOutput = "trim healthy_output"])
     (simp_all add: world_basics containers_healthy_output state_running_def health_ok_def)

lemma status_starting_world:
  "getDockerStatus sample_parse starting_world =
     \<lparr>installed = True, running = True, containersUp = True, healthy = False, error = None\<rparr>"
  unfolding starting_world_def
  by (subst status_ok_branch[OF world_basics(1,2,3), where psOutput = "trim starting_output"])
     (simp_all add: world_basics containers_starting_output state_running_def health_ok_def)

lemma status_garbled_world:
  "getDockerStatus sample_parse garbled_world =
     \<lparr>installed = True, running = True, containersUp = False, healthy = False, error = None\<rparr>"
  unfolding garbled_world_def
  by (subst status_ok_branch[OF world_basics(1,2,3), where psOutput = "trim garbled_output"])
     (simp_all add: world_basics lines_garbled_output parse_lines_def List.map_filter_simps
        sample_parse_values)

text \<open>
  C6 (as stated): when every line fails to parse, the result has \<open>containersUp = false\<close>
  with an attached error detail; and a record counts as healthy only without a health
  field or with the value \<open>healthy\<close>. It fails on an output of two lines that are not
  JSON: the result carries no error detail. And a record whose \<open>Health\<close> field is
  present and empty counts as healthy.
\<close>

theorem getDockerStatus_parse_failure_counterexample:
  "nonempty_lines (trim garbled_output) =
     [''WARN: version is obsolete'', ''no configuration file''] \<and>
   sample_parse ''WARN: version is obsolete'' = None \<and>
   sample_parse ''no configuration file'' = None \<and>
   getDockerStatus sample_parse garbled_world =
     \<lparr>installed = True, running = True, containersUp = False, healthy = False, error = None\<rparr> \<and>
   js_prop (JObj [(''State'', JStr ''running''), (''Health'', JStr '''')]) ''Health'' = Some (JStr '''') \<and>
   health_ok (JObj [(''State'', JStr ''running''), (''Health'', JStr '''')])"
  by (simp add: lines_garbled_output sample_parse_values status_garbled_world health_ok_def)

text \<open>
  C6 (amended): when docker is installed and running, the compose file exists and the
  \<open>ps\<close> command succeeds, \<open>containersUp\<close> is true exactly when at least 3 records were
  parsed and every parsed record has \<open>State\<close> equal to \<open>running\<close>, and \<open>healthy\<close> is
  true exactly when additionally every parsed record has no \<open>Health\<close> field, a falsy one
  (such as the empty string) or the value \<open>healthy\<close>. Lines that fail to parse are skipped:
  the records are those of the lines that parse. When every line fails to parse the
  result has \<open>containersUp = false\<close>, \<open>healthy = false\<close> and no error detail. An error
  detail is attached exactly when docker is installed and running and the compose file
  is missing or the \<open>ps\<close> command fails; in every other case \<open>containersUp\<close> and
  \<open>healthy\<close> are false.
\<close>

theorem getDockerStatus_containers:
  "(error (getDockerStatus parse w) \<noteq> None \<longleftrightarrow>
      isDockerInstalled w \<and> isDockerRunning w \<and>
      (\<not> compose_exists w \<or> (\<exists>m. execPromise (ps_cmd w) = Inl m))) \<and>
   (isDockerInstalled w \<and> isDockerRunning w \<and> compose_exists w \<and>
    execPromise (ps_cmd w) = Inr psOutput \<longrightarrow>
      (containersUp (getDockerStatus parse w) \<longleftrightarrow>
         3 \<le> length (parse_lines parse (nonempty_lines psOutput)) \<and>
         list_all state_running (parse_lines parse (nonempty_lines psOutput))) \<and>
      (healthy (getDockerStatus parse w) \<longleftrightarrow>
         containersUp (getDockerStatus parse w) \<and>
         list_all health_ok (parse_lines parse (nonempty_lines psOutput))) \<and>
      parse_lines parse (nonempty_lines psOutput) =
        parse_lines parse (filter (\<lambda>l. parse l \<noteq> None) (nonempty_lines psOutput)) \<and>
      (list_all (\<lambda>l. parse l = None) (nonempty_lines psOutput) \<longrightarrow>
         \<not> containersUp (getDockerStatus parse w) \<and> \<not> healthy (getDockerStatus parse w) \<and>
         error (getDockerStatus parse w) = None)) \<and>
   (\<not> (isDockerInstalled w \<and> isDockerRunning w \<and> compose_exists w \<and>
        (\<exists>out. execPromise (ps_cmd w) = Inr out)) \<longrightarrow>
      \<not> containersUp (getDockerStatus parse w) \<and> \<not> healthy (getDockerStatus parse w))"
proof -
  have a: "error (getDockerStatus parse w) \<noteq> None \<longleftrightarrow>
      isDockerInstalled w \<and> isDockerRunning w \<and>
      (\<not> compose_exists w \<or> (\<exists>m. execPromise (ps_cmd w) = Inl m))"
    by (cases "execPromise (ps_cmd w)")
       (simp_all add: getDockerStatus_def getComposePath_def Let_def)
  have b: "(containersUp (getDockerStatus parse w) \<longleftrightarrow>
         3 \<le> length (parse_lines parse (nonempty_lines psOutput)) \<and>
         list_all state_running (parse_lines parse (nonempty_lines psOutput))) \<and>
      (healthy (getDockerStatus parse w) \<longleftrightarrow>
         containersUp (getDockerStatus parse w) \<and>
         list_all health_ok (parse_lines parse (nonempty_lines psOutput))) \<and>
      (list_all (\<lambda>l. parse l = None) (nonempty_lines psOutput) \<longrightarrow>
         \<not> containersUp (getDockerStatus parse w) \<and> \<not> healthy (getDockerStatus parse w) \<and>
         error (getDockerStatus parse w) = None)"
    if "isDockerInstalled w" "isDockerRunning w" "compose_exists w"
      "execPromise (ps_cmd w) = Inr psOutput"
    by (simp add: status_ok_branch[OF that] parse_lines_all_fail)
  have c: "\<not> containersUp (getDockerStatus parse w) \<and> \<not> healthy (getDockerStatus parse w)"
    if "\<not> (isDockerInstalled w \<and> isDockerRunning w \<and> compose_exists w \<and>
        (\<exists>out. execPromise (ps_cmd w) = Inr out))"
    using that
    by (cases "execPromise (ps_cmd w)")
       (auto simp: getDockerStatus_def getComposePath_def Let_def)
  from a b c parse_lines_skip[of parse "nonempty_lines psOutput"] show ?thesis by blast
qed

text \<open>
  The amended C6 at concrete inputs: three running records and a warning line give
  \<open>containersUp\<close> and \<open>healthy\<close>; two lines that are not JSON give neither, and no
  error detail.
\<close>

theorem getDockerStatus_containers_witness:
  "isDockerInstalled healthy_world \<and> isDockerRunning healthy_world \<and>
   compose_exists healthy_world \<and>
   execPromise (ps_cmd healthy_world) = Inr (trim healthy_output) \<and>
   nonempty_lines (trim healthy_output) =
     [rec_healthy, ''WARN: version is obsolete'', rec_no_probe, rec_healthy] \<and>
   sample_parse ''WARN: version is obsolete'' = None \<and>
   containersUp (getDockerStatus sample_parse healthy_world) \<and>
   healthy (getDockerStatus sample_parse healthy_world) \<and>
   error (getDockerStatus sample_parse healthy_world) = None \<and>
   list_all (\<lambda>l. sample_parse l = None) (nonempty_lines (trim garbled_output)) \<and>
   \<not> containersUp (getDockerStatus sample_parse garbled_world) \<and>
   error (getDockerStatus sample_parse garbled_world) = None"
proof -
  have h: "isDockerInstalled healthy_world" "isDockerRunning healthy_world"
    "compose_exists healthy_world" "execPromise (ps_cmd healthy_world) = Inr (trim healthy_output)"
    by (simp_all add: healthy_world_def world_basics)
  have g: "isDockerInstalled garbled_world" "isDockerRunning garbled_world"
    "compose_exists garbled_world" "execPromise (ps_cmd garbled_world) = Inr (trim garbled_output)"
    by (simp_all add: garbled_world_def world_basics)
  have n: "list_all (\<lambda>l. sample_parse l = None) (nonempty_lines (trim garbled_output))"
    by (simp add: lines_garbled_output sample_parse_values)
  from getDockerStatus_containers [of sample_parse healthy_world "trim healthy_output"] h
  have 1: "containersUp (getDockerStatus sample_parse healthy_world)"
    "healthy (getDockerStatus sample_parse healthy_world)"
    "error (getDockerStatus sample_parse healthy_world) = None"
    by (simp_all add: containers_healthy_output state_running_def health_ok_def)
  from getDockerStatus_containers [of sample_parse garbled_world "trim garbled_output"] g n
  have 2: "\<not> containersUp (getDockerStatus sample_parse garbled_world)"
    "error (getDockerStatus sample_parse garbled_world) = None"
    by blast+
  from h n 1 2 show ?thesis
    by (simp add: lines_healthy_output sample_parse_values)
qed

text \<open>
  C9: every status returned by \<open>getDockerStatus\<close> satisfies the chain: \<open>healthy\<close>
  implies \<open>containersUp\<close>, \<open>containersUp\<close> implies \<open>running\<close>, and \<open>running\<close> implies
  \<open>installed\<close>.
\<close>

theorem getDockerStatus_chain:
  "(healthy (getDockerStatus parse w) \<longrightarrow> containersUp (getDockerStatus parse w)) \<and>
   (containersUp (getDockerStatus parse w) \<longrightarrow> running (getDockerStatus parse w)) \<and>
   (running (getDockerStatus parse w) \<longrightarrow> installed (getDockerStatus parse w))"
  by (simp add: getDockerStatus_def Let_def split: sum.split)

text \<open>C9 at a concrete input: a healthy stack has all four flags set.\<close>

theorem getDockerStatus_chain_witness:
  "healthy (getDockerStatus sample_parse healthy_world) \<and>
   containersUp (getDockerStatus sample_parse healthy_world) \<and>
   running (getDockerStatus sample_parse healthy_world) \<and>
   installed (getDockerStatus sample_parse healthy_world)"
  using getDockerStatus_chain [of sample_parse healthy_world]
  by (simp add: status_healthy_world)

section \<open>Stopping the stack\<close>

lemma down_settled_stays:
  "settled s = Some r \<Longrightarrow> settled (foldl down_event s evs) = Some r"
proof (induction evs arbitrary: s)
  case Nil
  then show ?case by simp
next
  case (Cons e evs)
  from Cons.prems have "settled (down_event s e) = Some r"
    by (cases e) (simp_all add: settle_def emit_lines_def clear_and_untrack_def)
  then show ?case using Cons.IH by simp
qed

lemma down_first_settles:
  "settled s = None \<Longrightarrow> timer_armed s \<Longrightarrow>
     settled (foldl down_event s evs) = map_option down_verdict (first_settling evs)"
proof (induction evs arbitrary: s)
  case Nil
  then show ?case by (simp add: first_settling_def)
next
  case (Cons e evs)
  show ?case
  proof (cases "settling e")
    case True
    with Cons.prems have "settled (down_event s e) = Some (down_verdict e)"
      by (cases e) (simp_all add: settle_def clear_and_untrack_def down_verdict_def)
    with True show ?thesis
      by (simp add: first_settling_def down_settled_stays)
  next
    case False
    with Cons.prems have "settled (down_event s e) = None" "timer_armed (down_event s e)"
      by (cases e; simp add: emit_lines_def)+
    with False Cons.IH show ?thesis by (simp add: first_settling_def)
  qed
qed

lemma first_settling_settling: "first_settling evs = Some e \<Longrightarrow> settling e"
  by (auto simp: first_settling_def find_Some_iff)

lemma stop_outcome:
  "settled (final (stopContainers h events)) =
     (if compose_exists h then map_option down_verdict (first_settling events)
      else Some (Inl (Error (''Docker Compose file not found: '' @ compose_file h))))"
  by (simp add: stopContainers_def getComposePath_def rejected_early_def down_first_settles
      spawned_state_def)

text \<open>
  C7 (as stated): \<open>stopContainers\<close> resolves when the subprocess exits with a null exit
  code, and rejects only for a non-zero exit code or a spawn error. It fails when the
  120-second timer fires first: the promise is rejected with the timeout error, the
  subprocess is sent SIGTERM, and its later \<open>close\<close> with a null exit code changes
  nothing.
\<close>

theorem stopContainers_timeout_counterexample:
  "foldl down_event spawned_state [TimerFired, Close None] =
     \<lparr>settled = Some (Inl (Error
        ''Container shutdown timed out. Try force-stopping Docker containers manually.'')),
      timer_armed = False, stderrOutput = [], sent_signals = [SIGTERM], tracked = False,
      emitted = []\<rparr> \<and>
   settled (final (stopContainers sample_host [TimerFired, Close None])) =
     Some (Inl (Error
       ''Container shutdown timed out. Try force-stopping Docker containers manually.''))"
  by (simp add: stopContainers_def getComposePath_def sample_host_def spawned_state_def
      settle_def clear_and_untrack_def)

text \<open>
  C7 (amended): \<open>stopContainers\<close> resolves exactly when the compose file exists and the
  first of the \<open>close\<close> event, the \<open>error\<close> event and the 120-second timeout to occur
  is a \<open>close\<close> with exit code 0 or null. It rejects exactly when the compose file is
  missing or that first event is a \<open>close\<close> with a non-zero exit code, a spawn error or
  the timeout; after the timeout a later null exit code does not turn the rejection
  into success. Stopping an already stopped stack (exit code 0) is not an error.
\<close>

theorem stopContainers_outcome:
  "(settled (final (stopContainers h events)) = Some (Inr ()) \<longleftrightarrow>
      compose_exists h \<and>
      (first_settling events = Some (Close (Some 0)) \<or> first_settling events = Some (Close None))) \<and>
   ((\<exists>r. settled (final (stopContainers h events)) = Some (Inl r)) \<longleftrightarrow>
      \<not> compose_exists h \<or>
      (\<exists>n. n \<noteq> 0 \<and> first_settling events = Some (Close (Some n))) \<or>
      (\<exists>msg. first_settling events = Some (ProcError msg)) \<or>
      first_settling events = Some TimerFired) \<and>
   (compose_exists h \<and> first_settling events = Some TimerFired \<longrightarrow>
      settled (final (stopContainers h events)) =
        Some (Inl (Error
          ''Container shutdown timed out. Try force-stopping Docker containers manually.'')))"
proof -
  have a: "settled (final (stopContainers h events)) = Some (Inr ()) \<longleftrightarrow>
      compose_exists h \<and>
      (first_settling events = Some (Close (Some 0)) \<or> first_settling events = Some (Close None))"
  proof (cases "first_settling events")
    case None
    then show ?thesis by (simp add: stop_outcome)
  next
    case (Some e)
    then show ?thesis
      using first_settling_settling[OF Some]
      by (cases e) (auto simp: stop_outcome down_verdict_def)
  qed
  have b: "(\<exists>r. settled (final (stopContainers h events)) = Some (Inl r)) \<longleftrightarrow>
      \<not> compose_exists h \<or>
      (\<exists>n. n \<noteq> 0 \<and> first_settling events = Some (Close (Some n))) \<or>
      (\<exists>msg. first_settling events = Some (ProcError msg)) \<or>
      first_settling events = Some TimerFired"
  proof (cases "first_settling events")
    case None
    then show ?thesis by (simp add: stop_outcome)
  next
    case (Some e)
    then show ?thesis
      using first_settling_settling[OF Some]
      by (cases e) (auto simp: stop_outcome down_verdict_def)
  qed
  have c: "compose_exists h \<and> first_settling events = Some TimerFired \<longrightarrow>
      settled (final (stopContainers h events)) =
        Some (Inl (Error
          ''Container shutdown timed out. Try force-stopping Docker containers manually.''))"
    by (simp add: stop_outcome down_verdict_def)
  from a b c show ?thesis by blast
qed

text \<open>
  The amended C7 at concrete inputs: exit code 0 and a null exit code resolve, exit
  code 1 rejects, and a timeout that precedes the null exit code rejects.
\<close>

theorem stopContainers_outcome_witness:
  "compose_exists sample_host \<and>
   first_settling [StdoutData ''Stopping'', TimerFired, Close None] = Some TimerFired \<and>
   settled (final (stopContainers sample_host [StdoutData ''Stopping'', TimerFired, Close None])) =
     Some (Inl (Error
       ''Container shutdown timed out. Try force-stopping Docker containers manually.'')) \<and>
   settled (final (stopContainers sample_host [Close (Some 0)])) = Some (Inr ()) \<and>
   settled (final (stopContainers sample_host [Close None])) = Some (Inr ()) \<and>
   settled (final (stopContainers sample_host [Close (Some 1)])) = Some (Inl (FailedWithCode (Some 1)))"
proof -
  have c: "compose_exists sample_host" by (simp add: sample_host_def)
  have f: "first_settling [StdoutData ''Stopping'', TimerFired, Close None] = Some TimerFired"
    by (simp add: first_settling_def)
  from stopContainers_outcome [of sample_host "[StdoutData ''Stopping'', TimerFired, Close None]"] c f
  have 1: "settled (final (stopContainers sample_host [StdoutData ''Stopping'', TimerFired, Close None])) =
     Some (Inl (Error
       ''Container shutdown timed out. Try force-stopping Docker containers manually.''))"
    by blast
  from stopContainers_outcome [of sample_host "[Close (Some 0)]"] c
  have 2: "settled (final (stopContainers sample_host [Close (Some 0)])) = Some (Inr ())"
    by (simp add: first_settling_def)
  from stopContainers_outcome [of sample_host "[Close None]"] c
  have 3: "settled (final (stopContainers sample_host [Close None])) = Some (Inr ())"
    by (simp add: first_settling_def)
  have 4: "settled (final (stopContainers sample_host [Close (Some 1)])) =
      Some (Inl (FailedWithCode (Some 1)))"
    by (simp add: stop_outcome c first_settling_def down_verdict_def)
  from c f 1 2 3 4 show ?thesis by simp
qed

section \<open>Waiting for a healthy stack\<close>

lemma wait_loop_continue:
  "js_less (clock (Suc i) - st) t \<Longrightarrow> \<not> healthy (getDockerStatus parse (worlds i)) \<Longrightarrow>
   wait_loop parse clock worlds st t i ls =
   wait_loop parse clock worlds st t (Suc i) (ls @ [phase_label (getDockerStatus parse (worlds i))])"
  by (subst wait_loop.simps) simp

lemma wait_loop_healthy:
  "js_less (clock (Suc i) - st) t \<Longrightarrow> healthy (getDockerStatus parse (worlds i)) \<Longrightarrow>
   wait_loop parse clock worlds st t i ls = Some (True, ls @ [''All services healthy''])"
  by (subst wait_loop.simps) simp

lemma wait_loop_timeout:
  "\<not> js_less (clock (Suc i) - st) t \<Longrightarrow>
   wait_loop parse clock worlds st t i ls = Some (False, ls)"
  by (subst wait_loop.simps) simp

lemma wait_loop_skip:
  assumes "i \<le> k"
    and "\<forall>j. i \<le> j \<and> j < k \<longrightarrow>
           js_less (clock (Suc j) - st) t \<and> \<not> healthy (getDockerStatus parse (worlds j))"
  shows "\<exists>ls'. wait_loop parse clock worlds st t i ls = wait_loop parse clock worlds st t k ls'"
  using assms
proof (induction k rule: dec_induct)
  case base
  show ?case by blast
next
  case (step n)
  then obtain ls' where
    "wait_loop parse clock worlds st t i ls = wait_loop parse clock worlds st t n ls'"
    by auto
  moreover from step.hyps step.prems
  have "js_less (clock (Suc n) - st) t" "\<not> healthy (getDockerStatus parse (worlds n))"
    by auto
  ultimately show ?case
    using wait_loop_continue[of clock n st t parse worlds ls'] by auto
qed

lemma sound_at_step:
  assumes "js_less (clock (Suc i) - st) t" "\<not> healthy (getDockerStatus parse (worlds i))"
    and "sound_at parse clock worlds st t (Suc i) b"
  shows "sound_at parse clock worlds st t i b"
proof (cases b)
  case True
  with assms(3) obtain k where k: "Suc i \<le> k" "healthy (getDockerStatus parse (worlds k))"
    "\<forall>j. Suc i \<le> j \<and> j \<le> k \<longrightarrow> js_less (clock (Suc j) - st) t"
    by (auto simp: sound_at_def)
  have "\<forall>j. i \<le> j \<and> j \<le> k \<longrightarrow> js_less (clock (Suc j) - st) t"
  proof (intro allI impI)
    fix j assume "i \<le> j \<and> j \<le> k"
    then show "js_less (clock (Suc j) - st) t"
      using k(3) assms(1) by (cases "j = i") auto
  qed
  with k True show ?thesis
    unfolding sound_at_def by (auto intro!: exI[of _ k])
next
  case False
  with assms(3) obtain k where k: "Suc i \<le> k" "\<not> js_less (clock (Suc k) - st) t"
    "\<forall>j. Suc i \<le> j \<and> j < k \<longrightarrow> js_less (clock (Suc j) - st) t \<and>
                          \<not> healthy (getDockerStatus parse (worlds j))"
    by (auto simp: sound_at_def)
  have "\<forall>j. i \<le> j \<and> j < k \<longrightarrow> js_less (clock (Suc j) - st) t \<and>
                          \<not> healthy (getDockerStatus parse (worlds j))"
  proof (intro allI impI)
    fix j assume "i \<le> j \<and> j < k"
    then show "js_less (clock (Suc j) - st) t \<and> \<not> healthy (getDockerStatus parse (worlds j))"
      using k(3) assms(1,2) by (cases "j = i") auto
  qed
  with k False show ?thesis
    unfolding sound_at_def by (auto intro!: exI[of _ k])
qed

lemma wait_loop_sound:
  assumes "wait_loop parse clock worlds st t i ls = Some y"
  shows "sound_at parse clock worlds st t i (fst y)"
proof (rule wait_loop.raw_induct
    [where P = "\<lambda>parse clock worlds st t i ls y. sound_at parse clock worlds st t i (fst y)",
     OF _ assms])
  fix loop :: "(string \<Rightarrow> json option) \<Rightarrow> (nat \<Rightarrow> int) \<Rightarrow> (nat \<Rightarrow> docker_world) \<Rightarrow> int \<Rightarrow>
      js_number \<Rightarrow> nat \<Rightarrow> string list \<Rightarrow> (bool \<times> string list) option"
    and parse clock worlds st t i ls and y :: "bool \<times> string list"
  assume IH: "\<And>parse clock worlds st t i ls y.
      loop parse clock worlds st t i ls = Some y \<Longrightarrow> sound_at parse clock worlds st t i (fst y)"
    and body: "(if js_less (clock (Suc i) - st) t
       then let status = getDockerStatus parse (worlds i)
            in if healthy status then Some (True, ls @ [''All services healthy''])
               else loop parse clock worlds st t (Suc i) (ls @ [phase_label status])
       else Some (False, ls)) = Some y"
  show "sound_at parse clock worlds st t i (fst y)"
  proof (cases "js_less (clock (Suc i) - st) t")
    case False
    with body have "\<not> fst y" by auto
    with False show ?thesis
      unfolding sound_at_def by (auto intro!: exI[of _ i])
  next
    case less: True
    show ?thesis
    proof (cases "healthy (getDockerStatus parse (worlds i))")
      case True
      with less body have "fst y" by (auto simp: Let_def)
      with less True show ?thesis
        unfolding sound_at_def by (auto intro!: exI[of _ i] simp: le_antisym)
    next
      case False
      with less body have "loop parse clock worlds st t (Suc i)
          (ls @ [phase_label (getDockerStatus parse (worlds i))]) = Some y"
        by (simp add: Let_def)
      from IH[OF this] less False show ?thesis by (rule sound_at_step[rotated 2])
    qed
  qed
qed

lemma clock_progress:
  assumes "\<forall>i. clock (Suc i) + HEALTH_CHECK_INTERVAL \<le> clock (Suc (Suc i))"
  shows "clock (Suc 0) + int k \<le> clock (Suc k)"
proof (induction k)
  case 0
  show ?case by simp
next
  case (Suc k)
  from assms have "clock (Suc k) + 3000 \<le> clock (Suc (Suc k))"
    by (simp add: HEALTH_CHECK_INTERVAL_def)
  with Suc show ?case by simp
qed

lemma timeout_reached:
  assumes "\<forall>i. clock (Suc i) + HEALTH_CHECK_INTERVAL \<le> clock (Suc (Suc i))" "t \<noteq> PosInfinity"
  shows "\<exists>k. \<not> js_less (clock (Suc k) - st) t"
proof (cases t)
  case (Num n)
  have "clock (Suc 0) + int (nat (n + st - clock (Suc 0))) \<le> clock (Suc (nat (n + st - clock (Suc 0))))"
    by (rule clock_progress[OF assms(1)])
  then have "\<not> clock (Suc (nat (n + st - clock (Suc 0)))) - st < n" by linarith
  with Num show ?thesis by auto
qed (use assms in auto)

lemma wait_loop_returns:
  assumes "\<not> js_less (clock (Suc k) - st) t \<or> healthy (getDockerStatus parse (worlds k))"
  shows "\<exists>y. wait_loop parse clock worlds st t 0 [] = Some y"
proof -
  define E where "E = (\<lambda>k. \<not> js_less (clock (Suc k) - st) t \<or> healthy (getDockerStatus parse (worlds k)))"
  define k0 where "k0 = (LEAST k. E k)"
  from assms have "E k" by (simp add: E_def)
  then have e: "E k0" and m: "\<forall>j<k0. \<not> E j"
    unfolding k0_def by (auto intro: LeastI dest: not_less_Least)
  from m have "\<forall>j. 0 \<le> j \<and> j < k0 \<longrightarrow>
      js_less (clock (Suc j) - st) t \<and> \<not> healthy (getDockerStatus parse (worlds j))"
    by (auto simp: E_def)
  from wait_loop_skip[OF _ this, of "[]"] obtain ls' where
    eq: "wait_loop parse clock worlds st t 0 [] = wait_loop parse clock worlds st t k0 ls'"
    by auto
  show ?thesis
  proof (cases "js_less (clock (Suc k0) - st) t")
    case True
    with e have "healthy (getDockerStatus parse (worlds k0))" by (simp add: E_def)
    with True eq have "wait_loop parse clock worlds st t 0 [] =
        Some (True, ls' @ [''All services healthy''])"
      by (simp add: wait_loop_healthy)
    then show ?thesis by blast
  next
    case False
    with eq have "wait_loop parse clock worlds st t 0 [] = Some (False, ls')"
      by (simp add: wait_loop_timeout)
    then show ?thesis by blast
  qed
qed

text \<open>
  C2: \<open>waitForHealthy\<close> returns true if and only if some status query that it performs
  within the timeout window (every test of the elapsed time up to that round passed)
  returns \<open>healthy = true\<close>. It returns false if and only if the test of the elapsed time
  fails before some round and no earlier round saw a healthy status. No result is an
  exception, for every timeout value (finite, infinite or NaN) and every sequence of
  observations. It does return whenever the timeout is not \<open>+Infinity\<close> and consecutive
  tests are at least the polling interval apart, as the sleep of 3000 ms makes them.
  The callback \<open>onStatus\<close> is taken not to throw.
\<close>

theorem waitForHealthy_result:
  "((\<exists>ls. waitForHealthy parse clock worlds timeoutMs = Some (True, ls)) \<longleftrightarrow>
      (\<exists>k. healthy (getDockerStatus parse (worlds k)) \<and>
           (\<forall>j\<le>k. js_less (clock (Suc j) - clock 0) (timeout_or_default timeoutMs)))) \<and>
   ((\<exists>ls. waitForHealthy parse clock worlds timeoutMs = Some (False, ls)) \<longleftrightarrow>
      (\<exists>k. \<not> js_less (clock (Suc k) - clock 0) (timeout_or_default timeoutMs) \<and>
           (\<forall>j<k. js_less (clock (Suc j) - clock 0) (timeout_or_default timeoutMs) \<and>
                  \<not> healthy (getDockerStatus parse (worlds j))))) \<and>
   (timeout_or_default timeoutMs \<noteq> PosInfinity \<and>
    (\<forall>i. clock (Suc i) + HEALTH_CHECK_INTERVAL \<le> clock (Suc (Suc i))) \<longrightarrow>
      (\<exists>y. waitForHealthy parse clock worlds timeoutMs = Some y))"
proof -
  let ?t = "timeout_or_default timeoutMs"
  let ?less = "\<lambda>j. js_less (clock (Suc j) - clock 0) ?t"
  let ?h = "\<lambda>j. healthy (getDockerStatus parse (worlds j))"
  let ?loop = "wait_loop parse clock worlds (clock 0) ?t"
  have w: "waitForHealthy parse clock worlds timeoutMs = ?loop 0 []"
    by (simp add: waitForHealthy_def)
  have t1: "\<exists>k. ?h k \<and> (\<forall>j\<le>k. ?less j)" if "?loop 0 [] = Some (True, ls)" for ls
    using wait_loop_sound[OF that] by (auto simp: sound_at_def)
  have f1: "\<exists>k. \<not> ?less k \<and> (\<forall>j<k. ?less j \<and> \<not> ?h j)" if "?loop 0 [] = Some (False, ls)" for ls
    using wait_loop_sound[OF that] by (auto simp: sound_at_def)
  have t2: "\<exists>ls. ?loop 0 [] = Some (True, ls)" if k: "?h k" "\<forall>j\<le>k. ?less j" for k
  proof -
    define k0 where "k0 = (LEAST k. ?h k)"
    from k(1) have h0: "?h k0" and le: "k0 \<le> k" and m: "\<forall>j<k0. \<not> ?h j"
      unfolding k0_def by (auto intro: LeastI Least_le dest: not_less_Least)
    from m le k(2) have "\<forall>j. 0 \<le> j \<and> j < k0 \<longrightarrow> ?less j \<and> \<not> ?h j" by auto
    from wait_loop_skip[OF _ this, of "[]"] obtain ls' where
      "?loop 0 [] = ?loop k0 ls'" by auto
    moreover from le k(2) have "?less k0" by simp
    ultimately show ?thesis using h0 by (simp add: wait_loop_healthy)
  qed
  have f2: "\<exists>ls. ?loop 0 [] = Some (False, ls)" if k: "\<not> ?less k" "\<forall>j<k. ?less j \<and> \<not> ?h j" for k
  proof -
    from k(2) have "\<forall>j. 0 \<le> j \<and> j < k \<longrightarrow> ?less j \<and> \<not> ?h j" by auto
    from wait_loop_skip[OF _ this, of "[]"] obtain ls' where
      "?loop 0 [] = ?loop k ls'" by auto
    with k(1) show ?thesis by (simp add: wait_loop_timeout)
  qed
  have r: "\<exists>y. ?loop 0 [] = Some y"
    if "?t \<noteq> PosInfinity" "\<forall>i. clock (Suc i) + HEALTH_CHECK_INTERVAL \<le> clock (Suc (Suc i))"
  proof -
    from timeout_reached[OF that(2,1)] obtain k where "\<not> ?less k" by blast
    then show ?thesis by (intro wait_loop_returns[of clock k]) simp
  qed
  from t1 t2 have A: "(\<exists>ls. ?loop 0 [] = Some (True, ls)) \<longleftrightarrow> (\<exists>k. ?h k \<and> (\<forall>j\<le>k. ?less j))"
    by blast
  from f1 f2 have B: "(\<exists>ls. ?loop 0 [] = Some (False, ls)) \<longleftrightarrow>
      (\<exists>k. \<not> ?less k \<and> (\<forall>j<k. ?less j \<and> \<not> ?h j))"
    by blast
  from A B r show ?thesis unfolding w by blast
qed

lemma clock_values:
  "sample_clock 0 = 1000" "sample_clock (Suc 0) = 1000" "sample_clock (Suc (Suc 0)) = 4005"
  "sample_clock (Suc (Suc (Suc 0))) = 7010"
  by (simp_all add: sample_clock_def)

lemma clock_advances:
  "sample_clock (Suc i) + HEALTH_CHECK_INTERVAL \<le> sample_clock (Suc (Suc i))"
  by (simp add: sample_clock_def HEALTH_CHECK_INTERVAL_def)

lemma wait_recovering:
  "waitForHealthy sample_parse sample_clock recovering (Some (Num 180000)) =
     Some (True, [''Waiting for services to become healthy...'',
                  ''Waiting for services to become healthy...'', ''All services healthy''])"
  unfolding waitForHealthy_def timeout_or_default_def
  by (subst wait_loop.simps, simp add: clock_values recovering_def status_starting_world
        status_healthy_world phase_label_def)+

lemma wait_times_out:
  "waitForHealthy sample_parse sample_clock (\<lambda>n. starting_world) (Some (Num 5000)) =
     Some (False, [''Waiting for services to become healthy...'',
                   ''Waiting for services to become healthy...''])"
  unfolding waitForHealthy_def timeout_or_default_def
  by (subst wait_loop.simps, simp add: clock_values status_starting_world phase_label_def)+

text \<open>
  C2 at concrete inputs: with a timeout of 5000 ms and a stack that never gets healthy
  the third test fails and the result is false; with a timeout of 180000 ms and a
  stack that is healthy in the third round the result is true.
\<close>

theorem waitForHealthy_result_witness:
  "timeout_or_default (Some (Num 5000)) \<noteq> PosInfinity \<and>
   (\<forall>i. sample_clock (Suc i) + HEALTH_CHECK_INTERVAL \<le> sample_clock (Suc (Suc i))) \<and>
   (\<exists>y. waitForHealthy sample_parse sample_clock (\<lambda>n. starting_world) (Some (Num 5000)) = Some y) \<and>
   waitForHealthy sample_parse sample_clock (\<lambda>n. starting_world) (Some (Num 5000)) =
     Some (False, [''Waiting for services to become healthy...'',
                   ''Waiting for services to become healthy...'']) \<and>
   healthy (getDockerStatus sample_parse (recovering 2)) \<and>
   (\<exists>ls. waitForHealthy sample_parse sample_clock recovering (Some (Num 180000)) = Some (True, ls)) \<and>
   waitForHealthy sample_parse sample_clock recovering (Some (Num 180000)) =
     Some (True, [''Waiting for services to become healthy...'',
                  ''Waiting for services to become healthy...'', ''All services healthy''])"
proof -
  have t: "timeout_or_default (Some (Num 5000)) \<noteq> PosInfinity"
    by (simp add: timeout_or_default_def)
  have c: "\<forall>i. sample_clock (Suc i) + HEALTH_CHECK_INTERVAL \<le> sample_clock (Suc (Suc i))"
    by (simp add: clock_advances)
  from waitForHealthy_result [of sample_parse sample_clock "\<lambda>n. starting_world" "Some (Num 5000)"] t c
  have r: "\<exists>y. waitForHealthy sample_parse sample_clock (\<lambda>n. starting_world) (Some (Num 5000)) = Some y"
    by blast
  have h: "healthy (getDockerStatus sample_parse (recovering 2))"
    by (simp add: recovering_def status_healthy_world)
  have w: "\<forall>j\<le>2. js_less (sample_clock (Suc j) - sample_clock 0)
      (timeout_or_default (Some (Num 180000)))"
    by (simp add: sample_clock_def timeout_or_default_def)
  from waitForHealthy_result [of sample_parse sample_clock recovering "Some (Num 180000)"] h w
  have e: "\<exists>ls. waitForHealthy sample_parse sample_clock recovering (Some (Num 180000)) = Some (True, ls)"
    by blast
  from t c r h e show ?thesis
    by (simp add: wait_recovering wait_times_out)
qed

section \<open>Single flight\<close>

lemma single_flight_invariant:
  "(dockerOperationInProgress (foldl ipc_step idle_state evs) \<longleftrightarrow>
      awaiting (foldl ipc_step idle_state evs) \<noteq> []) \<and>
   length (awaiting (foldl ipc_step idle_state evs)) \<le> 1"
proof (induction evs rule: rev_induct)
  case Nil
  show ?case by (simp add: idle_state_def)
next
  case (snoc e evs)
  let ?s = "foldl ipc_step idle_state evs"
  from snoc have inv: "dockerOperationInProgress ?s \<longleftrightarrow> awaiting ?s \<noteq> []"
    "length (awaiting ?s) \<le> 1" by simp_all
  show ?case
  proof (cases e)
    case (InvokeStart config)
    with inv show ?thesis
      by (cases "awaiting ?s") (simp_all add: docker_start_def guarded_enter_def)
  next
    case InvokeStop
    with inv show ?thesis
      by (cases "awaiting ?s") (simp_all add: docker_stop_def guarded_enter_def)
  next
    case (Settles r)
    with inv show ?thesis
      by (cases "awaiting ?s") (simp_all add: guarded_leave_def)
  qed
qed

text \<open>
  C3: while a docker operation is in progress (the flag is set), the \<open>docker:start\<close>
  handler throws the in-progress error at once and leaves the state of the main
  process, the flag and the pending operations, unchanged. When the flag is clear the
  handler sets it and calls \<open>startContainers\<close>; however that call settles, resolved or
  rejected, the handler clears the flag and settles the same way. In every state that
  invocations and settlings lead to from the idle state, the flag is set exactly while
  an operation is pending, and at most one is.
\<close>

theorem docker_start_single_flight:
  "(dockerOperationInProgress s \<longrightarrow>
      docker_start config s = (Some ''Docker operation already in progress'', s)) \<and>
   (\<not> dockerOperationInProgress s \<longrightarrow>
      fst (docker_start config s) = None \<and>
      dockerOperationInProgress (snd (docker_start config s)) \<and>
      awaiting (snd (docker_start config s)) = awaiting s @ [OpStart config]) \<and>
   fst (docker_start_finally config r s) = r \<and>
   \<not> dockerOperationInProgress (snd (docker_start_finally config r s)) \<and>
   (awaiting (foldl ipc_step idle_state evs) \<noteq> [] \<longrightarrow>
      docker_start config (foldl ipc_step idle_state evs) =
        (Some ''Docker operation already in progress'', foldl ipc_step idle_state evs)) \<and>
   length (awaiting (foldl ipc_step idle_state evs)) \<le> 1"
proof -
  have step: "(dockerOperationInProgress s \<longrightarrow>
      docker_start config s = (Some ''Docker operation already in progress'', s)) \<and>
   (\<not> dockerOperationInProgress s \<longrightarrow>
      fst (docker_start config s) = None \<and>
      dockerOperationInProgress (snd (docker_start config s)) \<and>
      awaiting (snd (docker_start config s)) = awaiting s @ [OpStart config]) \<and>
   fst (docker_start_finally config r s) = r \<and>
   \<not> dockerOperationInProgress (snd (docker_start_finally config r s))" for s
    by (simp add: docker_start_def docker_start_finally_def guarded_enter_def guarded_leave_def)
  have busy: "docker_start config (foldl ipc_step idle_state evs) =
        (Some ''Docker operation already in progress'', foldl ipc_step idle_state evs)"
    if "awaiting (foldl ipc_step idle_state evs) \<noteq> []"
    using that single_flight_invariant[of evs]
    by (simp add: docker_start_def guarded_enter_def)
  from step[of s] busy single_flight_invariant[of evs] show ?thesis by blast
qed

text \<open>
  C3 at a concrete input: a start while a stop is pending is refused and changes
  nothing; a start from the idle state sets the flag, and both a rejected and a
  resolved \<open>startContainers\<close> lead back to the idle state; once the stop has settled
  a start is accepted again.
\<close>

theorem docker_start_single_flight_witness:
  "dockerOperationInProgress (snd (docker_stop idle_state)) \<and>
   docker_start (Some sample_config) (snd (docker_stop idle_state)) =
     (Some ''Docker operation already in progress'', snd (docker_stop idle_state)) \<and>
   \<not> dockerOperationInProgress idle_state \<and>
   docker_start (Some sample_config) idle_state =
     (None, \<lparr>dockerOperationInProgress = True, awaiting = [OpStart (Some sample_config)]\<rparr>) \<and>
   docker_start_finally (Some sample_config) (Inl (Error port_conflict_message))
       (snd (docker_start (Some sample_config) idle_state)) =
     (Inl (Error port_conflict_message), idle_state) \<and>
   docker_start_finally (Some sample_config) (Inr ())
       (snd (docker_start (Some sample_config) idle_state)) =
     (Inr (), idle_state) \<and>
   foldl ipc_step idle_state [InvokeStop, InvokeStart (Some sample_config)] =
     \<lparr>dockerOperationInProgress = True, awaiting = [OpStop]\<rparr> \<and>
   foldl ipc_step idle_state
       [InvokeStop, InvokeStart (Some sample_config), Settles (Inr ()),
        InvokeStart (Some sample_config)] =
     \<lparr>dockerOperationInProgress = True, awaiting = [OpStart (Some sample_config)]\<rparr>"
proof -
  have b: "dockerOperationInProgress (snd (docker_stop idle_state))"
    by (simp add: docker_stop_def guarded_enter_def idle_state_def)
  have i: "\<not> dockerOperationInProgress idle_state"
    by (simp add: idle_state_def)
  from docker_start_single_flight [of "snd (docker_stop idle_state)" "Some sample_config"] b
  have 1: "docker_start (Some sample_config) (snd (docker_stop idle_state)) =
     (Some ''Docker operation already in progress'', snd (docker_stop idle_state))"
    by blast
  have 2: "docker_start (Some sample_config) idle_state =
     (None, \<lparr>dockerOperationInProgress = True, awaiting = [OpStart (Some sample_config)]\<rparr>)"
    by (simp add: docker_start_def guarded_enter_def idle_state_def)
  have 3: "docker_start_finally (Some sample_config) r
       \<lparr>dockerOperationInProgress = True, awaiting = [OpStart (Some sample_config)]\<rparr> =
     (r, idle_state)" for r
    by (simp add: docker_start_finally_def guarded_leave_def idle_state_def)
  have 4: "foldl ipc_step idle_state [InvokeStop, InvokeStart (Some sample_config)] =
     \<lparr>dockerOperationInProgress = True, awaiting = [OpStop]\<rparr>"
    by (simp add: docker_start_def docker_stop_def guarded_enter_def idle_state_def)
  have 5: "foldl ipc_step idle_state
       [InvokeStop, InvokeStart (Some sample_config), Settles (Inr ()),
        InvokeStart (Some sample_config)] =
     \<lparr>dockerOperationInProgress = True, awaiting = [OpStart (Some sample_config)]\<rparr>"
    by (simp add: docker_start_def docker_stop_def guarded_enter_def guarded_leave_def
        idle_state_def)
  from b i 1 2 3 4 5 show ?thesis by simp
qed

section \<open>The retry policy of the container start\<close>

lemma isPortError_nonempty: "isPortError m \<Longrightarrow> m \<noteq> []"
  by (auto simp: isPortError_def toLowerCase_def)

lemma resolve_checks_once:
  "length (filter (\<lambda>c. c = ApiCheckPorts) (snd (resolvePortConflicts io))) = 1"
  by (simp add: resolvePortConflicts_def Let_def split: sum.splits modal_choice.splits)

lemma resolve_no_start:
  "filter is_start_call (snd (resolvePortConflicts io)) = []"
  by (simp add: resolvePortConflicts_def is_start_call_def Let_def
      split: sum.splits modal_choice.splits)

text \<open>One round in which the ports resolve and the start is rejected with message m.\<close>

lemma attempt_start_rejected:
  assumes "fst (resolvePortConflicts io) = Inr True" "start_result io = Inl m"
  shows "start_attempt config io attempt =
           (start_catch attempt m, snd (resolvePortConflicts io) @ [ApiStart config])"
  using assms by (cases "resolvePortConflicts io") (simp add: start_attempt_def)

lemma attempt_calls_bound:
  "length (filter is_start_call (snd (start_attempt config io attempt))) \<le> 1"
  by (cases "resolvePortConflicts io")
     (use resolve_no_start[of io] in
       \<open>auto simp: start_attempt_def is_start_call_def split: sum.splits\<close>)

lemma start_attempts_bound:
  "length (filter is_start_call (snd (start_attempts config ios attempt calls))) \<le>
     length (filter is_start_call calls) + (3 - attempt)"
proof (induction config ios attempt calls rule: start_attempts.induct)
  case (1 config ios attempt calls)
  show ?case
  proof (cases "attempt < 3")
    case False
    then show ?thesis by (subst start_attempts.simps) simp
  next
    case True
    obtain r cs where a: "start_attempt config (ios attempt) attempt = (r, cs)"
      by (cases "start_attempt config (ios attempt) attempt")
    have b: "length (filter is_start_call cs) \<le> 1"
      using attempt_calls_bound[of config "ios attempt" attempt] a by simp
    show ?thesis
    proof (cases r)
      case Retry
      from 1[OF True a[symmetric] Retry] True b
      show ?thesis by (subst start_attempts.simps) (simp add: a Retry)
    next
      case (Finished step)
      with True a b show ?thesis by (subst start_attempts.simps) simp
    qed
  qed
qed

lemma start_attempts_retry:
  assumes "attempt < 2" "fst (resolvePortConflicts (ios attempt)) = Inr True"
    and "start_result (ios attempt) = Inl m" "isPortError m"
  shows "start_attempts config ios attempt calls =
         start_attempts config ios (Suc attempt)
           (calls @ snd (resolvePortConflicts (ios attempt)) @ [ApiStart config])"
proof -
  have "start_catch attempt m = Retry"
    using assms(1,4) isPortError_nonempty[OF assms(4)] by (simp add: start_catch_def Let_def)
  with assms(1) show ?thesis
    by (subst start_attempts.simps) (simp add: attempt_start_rejected[OF assms(2,3)])
qed

lemma start_attempts_terminal:
  assumes "attempt < 3" "fst (resolvePortConflicts (ios attempt)) = Inr True"
    and "start_result (ios attempt) = Inl m"
    and "\<not> (isPortError (if m = [] then ''Could not start containers.'' else m) \<and> attempt < 2)"
  shows "start_attempts config ios attempt calls =
         (StepError ''Failed'' ''Start Failed''
            (if m = [] then ''Could not start containers.'' else m),
          calls @ snd (resolvePortConflicts (ios attempt)) @ [ApiStart config])"
proof -
  have "start_catch attempt m =
      Finished (StepError ''Failed'' ''Start Failed''
        (if m = [] then ''Could not start containers.'' else m))"
    using assms(4) by (simp add: start_catch_def Let_def)
  with assms(1) show ?thesis
    by (subst start_attempts.simps) (simp add: attempt_start_rejected[OF assms(2,3)])
qed

lemma count_round:
  "length (filter (\<lambda>c. c = ApiCheckPorts) (calls @ snd (resolvePortConflicts io) @ [ApiStart config])) =
     Suc (length (filter (\<lambda>c. c = ApiCheckPorts) calls))"
  "length (filter is_start_call (calls @ snd (resolvePortConflicts io) @ [ApiStart config])) =
     Suc (length (filter is_start_call calls))"
  by (simp_all add: resolve_checks_once resolve_no_start is_start_call_def)

lemma start_attempts_after_retries:
  assumes "k \<le> 2"
    and "\<forall>i<k. fst (resolvePortConflicts (ios i)) = Inr True \<and>
               (\<exists>m. start_result (ios i) = Inl m \<and> isPortError m)"
  shows "\<exists>calls. start_attempts config ios 0 [] = start_attempts config ios k calls \<and>
           length (filter (\<lambda>c. c = ApiCheckPorts) calls) = k \<and>
           length (filter is_start_call calls) = k"
  using assms
proof (induction k)
  case 0
  show ?case by (intro exI[of _ "[]"]) simp
next
  case (Suc k)
  then obtain calls where c:
    "start_attempts config ios 0 [] = start_attempts config ios k calls"
    "length (filter (\<lambda>c. c = ApiCheckPorts) calls) = k"
    "length (filter is_start_call calls) = k"
    by auto
  from Suc.prems obtain m where m: "fst (resolvePortConflicts (ios k)) = Inr True"
    "start_result (ios k) = Inl m" "isPortError m" by auto
  from Suc.prems have "k < 2" by simp
  from start_attempts_retry[where ios = ios and attempt = k, OF this m, of config calls] c
    count_round[of calls "ios k" config]
  show ?case
    by (intro exI[of _ "calls @ snd (resolvePortConflicts (ios k)) @ [ApiStart config]"]) simp
qed

text \<open>
  C4: when in each of the three rounds the port resolution succeeds and the start is
  rejected with a message classified as port-related, the loop fails with the step in
  error and the message of the third rejection under the title \<open>Start Failed\<close>, having
  run the port resolution exactly 3 times and the start exactly 3 times. When after
  \<open>k < 3\<close> such rounds the start is rejected with a message that is not port-related,
  the loop fails at once with that message, after \<open>k + 1\<close> port resolutions and starts.
  In no case is the start called more than 3 times.
\<close>

theorem start_attempts_retry_policy:
  "((\<forall>i<3. fst (resolvePortConflicts (ios i)) = Inr True \<and>
            (\<exists>m. start_result (ios i) = Inl m \<and> isPortError m)) \<longrightarrow>
      (\<exists>m. start_result (ios 2) = Inl m \<and> isPortError m \<and>
           fst (start_attempts config ios 0 []) = StepError ''Failed'' ''Start Failed'' m) \<and>
      length (filter (\<lambda>c. c = ApiCheckPorts) (snd (start_attempts config ios 0 []))) = 3 \<and>
      length (filter is_start_call (snd (start_attempts config ios 0 []))) = 3) \<and>
   (k < 3 \<and>
    (\<forall>i<k. fst (resolvePortConflicts (ios i)) = Inr True \<and>
            (\<exists>m. start_result (ios i) = Inl m \<and> isPortError m)) \<and>
    fst (resolvePortConflicts (ios k)) = Inr True \<and> start_result (ios k) = Inl msg \<and>
    \<not> isPortError (if msg = [] then ''Could not start containers.'' else msg) \<longrightarrow>
      fst (start_attempts config ios 0 []) =
        StepError ''Failed'' ''Start Failed''
          (if msg = [] then ''Could not start containers.'' else msg) \<and>
      length (filter (\<lambda>c. c = ApiCheckPorts) (snd (start_attempts config ios 0 []))) = Suc k \<and>
      length (filter is_start_call (snd (start_attempts config ios 0 []))) = Suc k) \<and>
   length (filter is_start_call (snd (start_attempts config ios 0 []))) \<le> 3"
proof -
  let ?run = "start_attempts config ios 0 []"
  let ?PF = "\<lambda>i. fst (resolvePortConflicts (ios i)) = Inr True \<and>
            (\<exists>m. start_result (ios i) = Inl m \<and> isPortError m)"
  have three: "(\<exists>m. start_result (ios 2) = Inl m \<and> isPortError m \<and>
           fst ?run = StepError ''Failed'' ''Start Failed'' m) \<and>
      length (filter (\<lambda>c. c = ApiCheckPorts) (snd ?run)) = 3 \<and>
      length (filter is_start_call (snd ?run)) = 3" if pf: "\<forall>i<3. ?PF i"
  proof -
    from pf have "\<forall>i<2. ?PF i" by simp
    from start_attempts_after_retries[OF _ this, of config] obtain calls where c:
      "?run = start_attempts config ios 2 calls"
      "length (filter (\<lambda>c. c = ApiCheckPorts) calls) = 2"
      "length (filter is_start_call calls) = 2"
      by auto
    from pf have "?PF 2" by simp
    then obtain m where m: "fst (resolvePortConflicts (ios 2)) = Inr True"
      "start_result (ios 2) = Inl m" "isPortError m" by auto
    from isPortError_nonempty[OF m(3)]
    have e: "(if m = [] then ''Could not start containers.'' else m) = m" by simp
    have "?run = (StepError ''Failed'' ''Start Failed'' m,
        calls @ snd (resolvePortConflicts (ios 2)) @ [ApiStart config])"
      using start_attempts_terminal[where ios = ios and attempt = 2, OF _ m(1,2), of config calls]
        c(1) e by simp
    with c(2,3) m(2,3) count_round[of calls "ios 2" config] show ?thesis by simp
  qed
  have stop: "fst ?run = StepError ''Failed'' ''Start Failed''
          (if msg = [] then ''Could not start containers.'' else msg) \<and>
      length (filter (\<lambda>c. c = ApiCheckPorts) (snd ?run)) = Suc k \<and>
      length (filter is_start_call (snd ?run)) = Suc k"
    if k: "k < 3" and pf: "\<forall>i<k. ?PF i"
      and r: "fst (resolvePortConflicts (ios k)) = Inr True" "start_result (ios k) = Inl msg"
      and n: "\<not> isPortError (if msg = [] then ''Could not start containers.'' else msg)"
  proof -
    from k have "k \<le> 2" by simp
    from start_attempts_after_retries[OF this pf, of config] obtain calls where c:
      "?run = start_attempts config ios k calls"
      "length (filter (\<lambda>c. c = ApiCheckPorts) calls) = k"
      "length (filter is_start_call calls) = k"
      by auto
    have "?run = (StepError ''Failed'' ''Start Failed''
          (if msg = [] then ''Could not start containers.'' else msg),
        calls @ snd (resolvePortConflicts (ios k)) @ [ApiStart config])"
      using start_attempts_terminal[where ios = ios and attempt = k, OF k r, of config calls]
        n c(1) by simp
    with c(2,3) count_round[of calls "ios k" config] show ?thesis by simp
  qed
  have bound: "length (filter is_start_call (snd ?run)) \<le> 3"
    using start_attempts_bound[of config ios 0 "[]"] by simp
  from three stop bound show ?thesis by blast
qed

lemma port_message_is_port_error: "isPortError port_conflict_message"
  by (simp add: isPortError_def port_conflict_message_def toLowerCase_def to_lower_def)

lemma image_message_not_port_error:
  "\<not> isPortError (if missing_image_message = [] then ''Could not start containers.''
                   else missing_image_message)"
  by (simp add: isPortError_def missing_image_message_def toLowerCase_def to_lower_def)

lemma round_rejected_simps:
  "resolvePortConflicts (round_rejected m) = (Inr True, [ApiCheckPorts])"
  "start_result (round_rejected m) = Inl m"
  by (simp_all add: resolvePortConflicts_def round_rejected_def)

text \<open>
  C4 at concrete inputs: three port conflicts in a row end the loop after three
  resolutions and three starts; a port conflict followed by a missing image ends it
  after two.
\<close>

theorem start_attempts_retry_policy_witness:
  "fst (resolvePortConflicts (round_rejected port_conflict_message)) = Inr True \<and>
   isPortError port_conflict_message \<and>
   start_attempts sample_config (\<lambda>i. round_rejected port_conflict_message) 0 [] =
     (StepError ''Failed'' ''Start Failed'' port_conflict_message,
      [ApiCheckPorts, ApiStart sample_config, ApiCheckPorts, ApiStart sample_config,
       ApiCheckPorts, ApiStart sample_config]) \<and>
   \<not> isPortError missing_image_message \<and>
   start_attempts sample_config
       (\<lambda>i. round_rejected (if i = 0 then port_conflict_message else missing_image_message)) 0 [] =
     (StepError ''Failed'' ''Start Failed'' missing_image_message,
      [ApiCheckPorts, ApiStart sample_config, ApiCheckPorts, ApiStart sample_config])"
proof -
  let ?a = "\<lambda>i::nat. round_rejected port_conflict_message"
  let ?b = "\<lambda>i::nat. round_rejected (if i = 0 then port_conflict_message else missing_image_message)"
  note p = port_message_is_port_error
  note n = image_message_not_port_error
  have ne: "missing_image_message \<noteq> []" by (simp add: missing_image_message_def)
  have ha: "\<forall>i<3. fst (resolvePortConflicts (?a i)) = Inr True \<and>
            (\<exists>m. start_result (?a i) = Inl m \<and> isPortError m)"
    by (simp add: round_rejected_simps p)
  from start_attempts_retry_policy [of ?a sample_config 0 missing_image_message] ha
  have a1: "fst (start_attempts sample_config ?a 0 []) =
      StepError ''Failed'' ''Start Failed'' port_conflict_message"
    and a2: "length (filter is_start_call (snd (start_attempts sample_config ?a 0 []))) = 3"
    by (auto simp: round_rejected_simps)
  have hb: "(1::nat) < 3 \<and>
    (\<forall>i<1. fst (resolvePortConflicts (?b i)) = Inr True \<and>
            (\<exists>m. start_result (?b i) = Inl m \<and> isPortError m)) \<and>
    fst (resolvePortConflicts (?b 1)) = Inr True \<and> start_result (?b 1) = Inl missing_image_message \<and>
    \<not> isPortError (if missing_image_message = [] then ''Could not start containers.''
                      else missing_image_message)"
    using n by (simp add: round_rejected_simps p)
  from start_attempts_retry_policy [of ?b sample_config 1 missing_image_message] hb ne
  have b1: "fst (start_attempts sample_config ?b 0 []) =
      StepError ''Failed'' ''Start Failed'' missing_image_message"
    by simp
  have ca: "snd (start_attempts sample_config ?a 0 []) =
      [ApiCheckPorts, ApiStart sample_config, ApiCheckPorts, ApiStart sample_config,
       ApiCheckPorts, ApiStart sample_config]"
    by (simp add: start_attempts.simps start_attempt_def round_rejected_simps start_catch_def p
        isPortError_nonempty[OF p])
  have cb: "snd (start_attempts sample_config ?b 0 []) =
      [ApiCheckPorts, ApiStart sample_config, ApiCheckPorts, ApiStart sample_config]"
    using n ne
    by (simp add: start_attempts.simps start_attempt_def round_rejected_simps start_catch_def p
        isPortError_nonempty[OF p])
  from n ne have n': "\<not> isPortError missing_image_message" by simp
  from a1 ca b1 cb p n' show ?thesis
    by (simp add: prod_eq_iff round_rejected_simps)
qed

end
